theory Spec2Isabelle
  imports Main "HOL-Library.AList"
begin

section \<open>JavaScript values and plain objects\<close>

text \<open>
  Options objects, domain models and persistence entities are plain JavaScript objects.
  An object is an association list of own enumerable properties in insertion order; a
  property can be present with the value \<open>undefined\<close>, which differs from an absent one.
\<close>

datatype jsval =
    JUndefined
  | JNull
  | JBool bool
  | JNum int
  | JStr string
  | JArr "jsval list"
  | JObj "(string \<times> jsval) list"

type_synonym jsobj = "(string \<times> jsval) list"

definition getProp :: "jsobj \<Rightarrow> string \<Rightarrow> jsval" where
  \<comment> \<open>\<open>o.k\<close>: reading an absent property yields \<open>undefined\<close>.\<close>
  "getProp ob k = (case map_of ob k of None \<Rightarrow> JUndefined | Some v \<Rightarrow> v)"

definition setProp :: "jsobj \<Rightarrow> string \<Rightarrow> jsval \<Rightarrow> jsobj" where
  \<comment> \<open>\<open>o[k] = v\<close>: an existing property keeps its place, a new one goes last.\<close>
  "setProp ob k v = AList.update k v ob"

definition ownProperty :: "jsobj \<Rightarrow> string \<Rightarrow> bool" where
  \<comment> \<open>\<open>Object.prototype.hasOwnProperty.call(ob, k)\<close> on a plain object\<close>
  "ownProperty ob k = (k \<in> set (map fst ob))"

definition assign :: "jsobj \<Rightarrow> jsobj \<Rightarrow> jsobj" where
  \<comment> \<open>Copies every own enumerable property of the source onto the target, in the source's
      order (object spread \<open>{...a, ...b}\<close>, \<open>Object.assign\<close>).\<close>
  "assign target source = fold (\<lambda>(k, v) t. setProp t k v) source target"

primrec truthy :: "jsval \<Rightarrow> bool" where
  "truthy JUndefined = False"
| "truthy JNull = False"
| "truthy (JBool b) = b"
| "truthy (JNum n) = (n \<noteq> 0)"
| "truthy (JStr s) = (s \<noteq> [])"
| "truthy (JArr xs) = True"
| "truthy (JObj ps) = True"

definition js_or :: "jsval \<Rightarrow> jsval \<Rightarrow> jsval" where
  \<comment> \<open>\<open>a || b\<close>\<close>
  "js_or a b = (if truthy a then a else b)"

primrec cloneDeep :: "jsval \<Rightarrow> jsval" where
  \<comment> \<open>lodash \<open>_.cloneDeep\<close>: rebuilds arrays and objects recursively, copies scalars.\<close>
  "cloneDeep JUndefined = JUndefined"
| "cloneDeep JNull = JNull"
| "cloneDeep (JBool b) = JBool b"
| "cloneDeep (JNum n) = JNum n"
| "cloneDeep (JStr s) = JStr s"
| "cloneDeep (JArr xs) = JArr (map cloneDeep xs)"
| "cloneDeep (JObj ps) = JObj (map (map_prod id cloneDeep) ps)"

subsection \<open>lodash \<open>has\<close>\<close>

text \<open>
  \<open>_.has(object, path)\<close> of lodash, which \<open>update\<close> imports as \<open>_has\<close>. A string path is used
  as a single key when \<open>isKey\<close> accepts it: it consists of word characters, or it has no
  path syntax (no dot and no bracket pair), or it is itself a property of the object.
  Otherwise \<open>stringToPath\<close> splits it at dots and brackets, and \<open>hasPath\<close> follows the keys
  through own properties. The functions keep the names they have in lodash; \<open>scanPath\<close> is the
  scan of the string with the regular expression \<open>rePropName\<close>.

  \<open>value in Object(object)\<close> also sees inherited properties; a model is a plain data object
  whose prototypes carry no property under a name with path syntax, so the test is one on
  the own properties.
\<close>

definition isDigit :: "char \<Rightarrow> bool" where
  "isDigit c = (c \<in> set ''0123456789'')"

definition isWordChar :: "char \<Rightarrow> bool" where
  \<comment> \<open>the class \<open>\w\<close>\<close>
  "isWordChar c =
     (c \<in> set ''abcdefghijklmnopqrstuvwxyzABCDEFGHIJKLMNOPQRSTUVWXYZ0123456789_'')"

definition reIsPlainProp :: "string \<Rightarrow> bool" where
  \<comment> \<open>\<open>/^\w*$/\<close>\<close>
  "reIsPlainProp s = list_all isWordChar s"

definition reIsDeepProp :: "string \<Rightarrow> bool" where
  \<comment> \<open>The test of lodash's \<open>reIsDeepProp\<close>: it finds a match exactly when the string has a dot,
      or an opening bracket with a closing bracket somewhere after it.\<close>
  "reIsDeepProp s =
     (CHR ''.'' \<in> set s \<or>
      (case dropWhile (\<lambda>c. c \<noteq> CHR ''['') s of
         [] \<Rightarrow> False
       | c # rest \<Rightarrow> CHR '']'' \<in> set rest))"

definition isKey :: "string \<Rightarrow> jsobj \<Rightarrow> bool" where
  "isKey v ob = (reIsPlainProp v \<or> \<not> reIsDeepProp v \<or> v \<in> set (map fst ob))"

definition reIsUint :: "string \<Rightarrow> bool" where
  \<comment> \<open>\<open>/^(?:0|[1-9]\d*)$/\<close>: the names of array indices\<close>
  "reIsUint s =
     (s = ''0'' \<or>
      (case s of [] \<Rightarrow> False | c # cs \<Rightarrow> c \<in> set ''123456789'' \<and> list_all isDigit cs))"

definition toNumber :: "string \<Rightarrow> nat" where
  \<comment> \<open>the value of a string of decimal digits\<close>
  "toNumber s = foldl (\<lambda>n c. 10 * n + (of_char c - 48)) 0 s"

definition notSpecial :: "char \<Rightarrow> bool" where
  \<comment> \<open>the class \<open>[^.[\]]\<close>\<close>
  "notSpecial c = (c \<noteq> CHR ''.'' \<and> c \<noteq> CHR ''['' \<and> c \<noteq> CHR '']'')"

definition bracketNumber :: "string \<Rightarrow> (string \<times> string) option" where
  \<comment> \<open>After an opening bracket: a number \<open>-?\d+(?:\.\d+)?\<close> and the closing bracket. Returns the
      text of the number and what follows the bracket.\<close>
  "bracketNumber s =
     (let (sign, s1) = (case s of [] \<Rightarrow> ([], s)
                               | c # r \<Rightarrow> if c = CHR ''-'' then ([c], r) else ([], s));
          s2 = dropWhile isDigit s1;
          (frac, s3) = (case s2 of [] \<Rightarrow> ([], s2)
                                 | c # r \<Rightarrow> if c = CHR ''.'' \<and> takeWhile isDigit r \<noteq> []
                                          then (c # takeWhile isDigit r, dropWhile isDigit r)
                                          else ([], s2))
      in if takeWhile isDigit s1 = [] then None
         else (case s3 of [] \<Rightarrow> None
                         | c # r \<Rightarrow> if c = CHR '']'' then Some (sign @ takeWhile isDigit s1 @ frac, r)
                                  else None))"

fun quotedBody :: "char \<Rightarrow> string \<Rightarrow> (string \<times> string) option" where
  \<comment> \<open>After an opening bracket and the quote \<open>q\<close>: the quoted text up to the closing quote,
      which the closing bracket must follow. A backslash takes the next character with it (not a
      line break); in the key, \<open>reEscapeChar\<close> drops the backslash. Returns the key and what
      follows the bracket.\<close>
  "quotedBody q [] = None"
| "quotedBody q [c] = None"
| "quotedBody q (c # d # r) =
     (if c = q then (if d = CHR '']'' then Some ([], r) else None)
      else if c = CHR 0x5C
      then (if d = CHR 0x0A \<or> d = CHR 0x0D then None
            else map_option (\<lambda>(seg, rest). (d # seg, rest)) (quotedBody q r))
      else map_option (\<lambda>(seg, rest). (c # seg, rest)) (quotedBody q (d # r)))"

definition bracket :: "string \<Rightarrow> (string \<times> string) option" where
  \<comment> \<open>the second alternative of \<open>rePropName\<close>, after its opening bracket\<close>
  "bracket s =
     (case bracketNumber s of
        Some r \<Rightarrow> Some r
      | None \<Rightarrow>
          (case s of
             [] \<Rightarrow> None
           | q # body \<Rightarrow> if q = CHR 0x22 \<or> q = CHR 0x27 then quotedBody q body else None))"

definition dotOrEmptyBrackets :: "string \<Rightarrow> string option" where
  \<comment> \<open>\<open>(?:\.|\[\])\<close> at the start of the string; returns what follows\<close>
  "dotOrEmptyBrackets s =
     (case s of
        [] \<Rightarrow> None
      | c # r \<Rightarrow>
          if c = CHR ''.'' then Some r
          else (case r of
                  [] \<Rightarrow> None
                | d # r2 \<Rightarrow> if c = CHR ''['' \<and> d = CHR '']'' then Some r2 else None))"

definition emptyKeyAhead :: "string \<Rightarrow> bool" where
  \<comment> \<open>the third alternative of \<open>rePropName\<close>, the lookahead \<open>(?=(?:\.|\[\])(?:\.|\[\]|$))\<close>,
      which matches the empty key\<close>
  "emptyKeyAhead s =
     (case dotOrEmptyBrackets s of
        None \<Rightarrow> False
      | Some r \<Rightarrow> r = [] \<or> dotOrEmptyBrackets r \<noteq> None)"

function scanPath :: "string \<Rightarrow> string list" where
  \<comment> \<open>\<open>string.replace(rePropName, ...)\<close>: at each position the alternatives are tried in order;
      a match pushes its key and the scan goes on behind it (one character on after an empty
      match); a character that starts no match is passed over.\<close>
  "scanPath [] = []"
| "scanPath (c # cs) =
     (if notSpecial c
      then takeWhile notSpecial (c # cs) # scanPath (dropWhile notSpecial cs)
      else if c = CHR ''[''
      then (case bracket cs of
              Some (seg, rest) \<Rightarrow> seg # scanPath rest
            | None \<Rightarrow> if emptyKeyAhead (c # cs) then [] # scanPath cs else scanPath cs)
      else if c = CHR ''.''
      then (if emptyKeyAhead (c # cs) then [] # scanPath cs else scanPath cs)
      else scanPath cs)"
  by pat_completeness auto
termination
proof (relation "measure length")
  have quoted: "length rest < length s" if "quotedBody q s = Some (seg, rest)" for q s seg rest
    using that
  proof (induction q s arbitrary: seg rest rule: quotedBody.induct)
    case (3 q c d r)
    show ?case
    proof (cases "c = q")
      case True
      with "3.prems" show ?thesis by (auto split: if_splits)
    next
      case False
      note neq = this
      show ?thesis
      proof (cases "c = CHR 0x5C")
        case True
        with neq "3.prems" obtain seg' where "quotedBody q r = Some (seg', rest)"
          by (auto split: if_splits)
        with "3.IH"(1) [OF neq True] "3.prems" neq True show ?thesis
          by (auto split: if_splits)
      next
        case False
        with neq "3.prems" obtain seg' where "quotedBody q (d # r) = Some (seg', rest)"
          by auto
        with "3.IH"(2) [OF neq False] show ?thesis by fastforce
      qed
    qed
  qed simp_all
  have number: "length rest \<le> length s" if num: "bracketNumber s = Some (seg, rest)" for s seg rest
  proof -
    obtain sign s1 where s1:
      "(case s of [] \<Rightarrow> ([], s) | c # r \<Rightarrow> if c = CHR ''-'' then ([c], r) else ([], s)) = (sign, s1)"
      by (cases "(case s of [] \<Rightarrow> ([]::string, s)
                   | c # r \<Rightarrow> if c = CHR ''-'' then ([c], r) else ([], s))") auto
    then have l1: "length s1 \<le> length s" by (auto split: list.splits if_splits)
    let ?s2 = "dropWhile isDigit s1"
    have l2: "length ?s2 \<le> length s1" by (rule length_dropWhile_le)
    obtain frac s3 where s3:
      "(case ?s2 of [] \<Rightarrow> ([], ?s2)
        | c # r \<Rightarrow> if c = CHR ''.'' \<and> takeWhile isDigit r \<noteq> []
                 then (c # takeWhile isDigit r, dropWhile isDigit r)
                 else ([], ?s2)) = (frac, s3)"
      by (cases "(case ?s2 of [] \<Rightarrow> ([]::string, ?s2)
                   | c # r \<Rightarrow> if c = CHR ''.'' \<and> takeWhile isDigit r \<noteq> []
                            then (c # takeWhile isDigit r, dropWhile isDigit r)
                            else ([], ?s2))") auto
    have l3: "length s3 \<le> length ?s2"
    proof (cases ?s2)
      case Nil
      with s3 show ?thesis by simp
    next
      case (Cons c r)
      then have len: "length ?s2 = Suc (length r)" by simp
      have d: "length (dropWhile isDigit r) \<le> length r" by (rule length_dropWhile_le)
      from s3 Cons have "s3 = c # r \<or> s3 = dropWhile isDigit r" by (auto split: if_splits)
      with len d show ?thesis by auto
    qed
    from num s1 s3 have "length rest \<le> length s3"
      by (auto simp: bracketNumber_def Let_def split: list.splits if_splits)
    with l1 l2 l3 show ?thesis by simp
  qed
  have inBracket: "length rest \<le> length s" if br: "bracket s = Some (seg, rest)" for s seg rest
  proof (cases "bracketNumber s")
    case (Some r)
    with br have "bracketNumber s = Some (seg, rest)" by (simp add: bracket_def)
    then show ?thesis by (rule number)
  next
    case None
    with br obtain q body where s: "s = q # body" and b: "quotedBody q body = Some (seg, rest)"
      by (auto simp: bracket_def split: list.splits if_splits)
    from quoted [OF b] s show ?thesis by simp
  qed
  show "wf (measure length)" by simp
  show "(dropWhile notSpecial cs, c # cs) \<in> measure length" for c cs
    using length_dropWhile_le [of notSpecial cs] by simp
  show "(y, c # cs) \<in> measure length" if "bracket cs = Some x2" "(x, y) = x2" for c cs x2 x y
  proof -
    from that have "bracket cs = Some (x, y)" by simp
    from inBracket [OF this] show ?thesis by simp
  qed
qed simp_all

definition stringToPath :: "string \<Rightarrow> string list" where
  \<comment> \<open>a leading dot stands for an empty first key\<close>
  "stringToPath s =
     (case s of [] \<Rightarrow> [] | c # cs \<Rightarrow> if c = CHR ''.'' then [[]] else []) @ scanPath s"

definition castPath :: "string \<Rightarrow> jsobj \<Rightarrow> string list" where
  "castPath v ob = (if isKey v ob then [v] else stringToPath v)"

primrec baseHas :: "jsval \<Rightarrow> string \<Rightarrow> bool" where
  \<comment> \<open>\<open>object != null && hasOwnProperty.call(object, key)\<close>: a string and an array own their
      indices and \<open>length\<close>\<close>
  "baseHas JUndefined key = False"
| "baseHas JNull key = False"
| "baseHas (JBool b) key = False"
| "baseHas (JNum n) key = False"
| "baseHas (JStr s) key = (key = ''length'' \<or> (reIsUint key \<and> toNumber key < length s))"
| "baseHas (JArr xs) key = (key = ''length'' \<or> (reIsUint key \<and> toNumber key < length xs))"
| "baseHas (JObj ps) key = ownProperty ps key"

primrec getValue :: "jsval \<Rightarrow> string \<Rightarrow> jsval" where
  \<comment> \<open>\<open>object[key]\<close>\<close>
  "getValue JUndefined key = JUndefined"
| "getValue JNull key = JUndefined"
| "getValue (JBool b) key = JUndefined"
| "getValue (JNum n) key = JUndefined"
| "getValue (JStr s) key =
     (if key = ''length'' then JNum (int (length s))
      else if reIsUint key \<and> toNumber key < length s then JStr [s ! toNumber key]
      else JUndefined)"
| "getValue (JArr xs) key =
     (if key = ''length'' then JNum (int (length xs))
      else if reIsUint key \<and> toNumber key < length xs then xs ! toNumber key
      else JUndefined)"
| "getValue (JObj ps) key = getProp ps key"

definition arrayIndexFallback :: "jsval \<Rightarrow> string \<Rightarrow> bool" where
  \<comment> \<open>the last lines of \<open>hasPath\<close>: when only the last key is missing, an index below the length
      of an array still counts\<close>
  "arrayIndexFallback object key =
     (case object of
        JArr xs \<Rightarrow> xs \<noteq> [] \<and> reIsUint key \<and> toNumber key < length xs
      | _ \<Rightarrow> False)"

primrec hasPath :: "string list \<Rightarrow> jsval \<Rightarrow> bool" where
  "hasPath [] object = False"
| "hasPath (key # rest) object =
     (if baseHas object key
      then (if rest = [] then True else hasPath rest (getValue object key))
      else if rest = [] then arrayIndexFallback object key
      else False)"

definition has :: "jsobj \<Rightarrow> string \<Rightarrow> bool" where
  \<comment> \<open>\<open>_.has(object, path)\<close> for an object that is not \<open>null\<close> and a string path\<close>
  "has ob path = hasPath (castPath path ob) (JObj ob)"

datatype error =
    TypeError string
      \<comment> \<open>a property read on \<open>null\<close> or \<open>undefined\<close>; the string names the read\<close>
  | NotFound int
      \<comment> \<open>\<open>new Error('Not found model by id: ' + id)\<close>\<close>
  | Misconfigured string
      \<comment> \<open>\<open>new Error('Property modelClass is not set in repository: ' + name)\<close>\<close>
  | UserError string
      \<comment> \<open>an error raised by caller-supplied code (a hook override or a transaction handler)\<close>

section \<open>Field metadata (BaseField.ts)\<close>

text \<open>
  The metadata lives in the \<open>reflect-metadata\<close> side table. \<open>Reflect.defineMetadata\<close> writes
  an own entry on the target object; \<open>Reflect.getMetadata\<close> and \<open>Reflect.hasMetadata\<close> read the
  own entry and otherwise continue along the prototype chain. A prototype object is identified
  here by its chain of class names, most derived class first, so that the parent of \<open>c # cs\<close>
  is \<open>cs\<close> and \<open>[]\<close> ends the chain.

  The value stored under \<open>STEROIDS_META_KEYS\<close> is an array, hence a reference: the store keeps
  a reference per prototype and the arrays themselves in a heap, so that \<open>push\<close> on an array
  reached through the prototype chain is seen by every prototype that holds the reference.
\<close>

type_synonym proto = "string list"

record metaStore =
  metaField :: "proto \<times> string \<rightharpoonup> jsobj"
  metaFieldDecorator :: "proto \<times> string \<rightharpoonup> jsval"
  metaKeys :: "proto \<rightharpoonup> nat"
  arrays :: "nat \<Rightarrow> string list"
  nextRef :: nat

definition emptyStore :: metaStore where
  "emptyStore = \<lparr>metaField = Map.empty, metaFieldDecorator = Map.empty,
     metaKeys = Map.empty, arrays = (\<lambda>_. []), nextRef = 0\<rparr>"

primrec getMetadata :: "(proto \<rightharpoonup> 'a) \<Rightarrow> proto \<Rightarrow> 'a option" where
  \<comment> \<open>\<open>Reflect.getMetadata\<close> for one metadata key, given its own entries.\<close>
  "getMetadata own [] = None"
| "getMetadata own (c # cs) =
     (case own (c # cs) of Some v \<Rightarrow> Some v | None \<Rightarrow> getMetadata own cs)"

definition getFieldOptions :: "metaStore \<Rightarrow> proto \<Rightarrow> string \<Rightarrow> jsobj option" where
  "getFieldOptions st targetClass fieldName =
     getMetadata (\<lambda>ob. metaField st (ob, fieldName)) targetClass"

definition isMetaClass :: "metaStore \<Rightarrow> proto \<Rightarrow> bool" where
  "isMetaClass st MetaClass = (getMetadata (metaKeys st) MetaClass \<noteq> None)"

definition getMetaFields :: "metaStore \<Rightarrow> proto \<Rightarrow> string list" where
  "getMetaFields st MetaClass =
     (case getMetadata (metaKeys st) MetaClass of Some r \<Rightarrow> arrays st r | None \<Rightarrow> [])"

definition isRelationType :: "jsval \<Rightarrow> bool" where
  \<comment> \<open>\<open>['relationId', 'relation'].includes(appType)\<close>\<close>
  "isRelationType t = (t \<in> set [JStr ''relationId'', JStr ''relation''])"

primrec filterRelations :: "metaStore \<Rightarrow> proto \<Rightarrow> string list \<Rightarrow> error + string list" where
  \<comment> \<open>The \<open>filter\<close> callback of \<open>getMetaRelations\<close>, run over the field names in order; reading
      \<open>options.appType\<close> throws when \<open>getFieldOptions\<close> returned \<open>undefined\<close>.\<close>
  "filterRelations st MetaClass [] = Inr []"
| "filterRelations st MetaClass (fieldName # rest) =
     (case getFieldOptions st MetaClass fieldName of
        None \<Rightarrow> Inl (TypeError ''options.appType'')
      | Some options \<Rightarrow>
          (case filterRelations st MetaClass rest of
             Inl e \<Rightarrow> Inl e
           | Inr keep \<Rightarrow>
               Inr (if isRelationType (getProp options ''appType'')
                    then fieldName # keep else keep)))"

definition getMetaRelations :: "metaStore \<Rightarrow> proto \<Rightarrow> error + string list" where
  "getMetaRelations st MetaClass = filterRelations st MetaClass (getMetaFields st MetaClass)"

definition ColumnMetaDecorator ::
  "jsobj \<Rightarrow> jsobj \<Rightarrow> proto \<Rightarrow> string \<Rightarrow> metaStore \<Rightarrow> metaStore" where
  "ColumnMetaDecorator options internalOptions object propertyName st =
     (let st1 = st\<lparr>metaField := (metaField st)((object, propertyName) \<mapsto> options)\<rparr>;
          st2 = st1\<lparr>metaFieldDecorator :=
                  (metaFieldDecorator st1)((object, propertyName) \<mapsto>
                     getProp internalOptions ''decoratorName'')\<rparr>;
          (fieldNames, st3) =
             (case getMetadata (metaKeys st2) object of
                Some r \<Rightarrow> (r, st2)
              | None \<Rightarrow> (nextRef st2,
                          st2\<lparr>arrays := (arrays st2)(nextRef st2 := []),
                              nextRef := Suc (nextRef st2)\<rparr>));
          st4 = st3\<lparr>arrays := (arrays st3)(fieldNames := arrays st3 fieldNames @ [propertyName])\<rparr>
      in st4\<lparr>metaKeys := (metaKeys st4)(object \<mapsto> fieldNames)\<rparr>)"

text \<open>
  \<open>BaseField\<close> builds three decorators and hands them to \<open>applyDecorators\<close>. The Swagger and
  class-validator decorators write to metadata of their own libraries, which is outside this
  store; they are kept as data.
\<close>

datatype decorator =
    ColumnMeta jsobj jsobj
  | ApiProperty jsobj
  | IsNotEmpty

definition BaseField :: "jsobj option \<Rightarrow> jsobj option \<Rightarrow> error + decorator list" where
  \<comment> \<open>The parameters after defaulting: \<open>options\<close> is \<open>null\<close> (\<open>None\<close>) when omitted,
      \<open>internalOptions\<close> is \<open>{}\<close> when omitted. The array elements are evaluated in order;
      spreading \<open>null\<close> is allowed, reading a property of \<open>null\<close> throws. \<open>filter(Boolean)\<close>
      drops the third element when \<open>options.required\<close> is falsy.\<close>
  "BaseField options internalOptions =
     (case internalOptions of
        None \<Rightarrow> Inl (TypeError ''internalOptions.isArray'')
      | Some io \<Rightarrow>
          (let descriptor =
                 assign
                   (assign [(''label'', JNull), (''hint'', JNull), (''items'', JNull)]
                      (case options of None \<Rightarrow> [] | Some ob \<Rightarrow> ob))
                   [(''isArray'', js_or (getProp io ''isArray'') JNull),
                    (''appType'', js_or (getProp io ''appType'') JNull)]
           in case options of
                None \<Rightarrow> Inl (TypeError ''options.jsType'')
              | Some ob \<Rightarrow>
                  Inr ([ColumnMeta descriptor io,
                      ApiProperty
                        [(''type'', getProp ob ''jsType''),
                         (''description'', js_or (getProp ob ''label'') JUndefined),
                         (''example'', js_or (getProp ob ''example'') JUndefined),
                         (''required'', JBool (getProp ob ''nullable'' = JBool False)),
                         (''isArray'', getProp ob ''isArray'')]]
                       @ (if truthy (getProp ob ''required'') then [IsNotEmpty] else []))))"

primrec applyDecorator :: "decorator \<Rightarrow> proto \<Rightarrow> string \<Rightarrow> metaStore \<Rightarrow> metaStore" where
  "applyDecorator (ColumnMeta options internalOptions) object propertyName st =
     ColumnMetaDecorator options internalOptions object propertyName st"
| "applyDecorator (ApiProperty ob) object propertyName st = st"
| "applyDecorator IsNotEmpty object propertyName st = st"

definition applyDecorators :: "decorator list \<Rightarrow> proto \<Rightarrow> string \<Rightarrow> metaStore \<Rightarrow> metaStore" where
  \<comment> \<open>\<open>applyDecorators(...ds)\<close> of the host framework applies each decorator in turn.\<close>
  "applyDecorators ds object propertyName st =
     fold (\<lambda>d s. applyDecorator d object propertyName s) ds st"

definition decorateProperty ::
  "error + decorator list \<Rightarrow> proto \<Rightarrow> string \<Rightarrow> metaStore \<Rightarrow> metaStore" where
  \<comment> \<open>\<open>@BaseField(...) propertyName\<close> in a class body: the decorator expression is evaluated,
      then applied to the prototype; when the expression throws nothing is applied.\<close>
  "decorateProperty built object propertyName st =
     (case built of Inl e \<Rightarrow> st | Inr ds \<Rightarrow> applyDecorators ds object propertyName st)"

text \<open>
  The specification's reading of the relation fields of a class (\<open>relationFields\<close> in its
  section on the metadata store): the declared field names whose descriptor has the
  application type \<open>relation\<close> or \<open>relationId\<close>. These two definitions follow the
  specification's words; \<open>getMetaRelations\<close> above follows the code.
\<close>

definition declaredRelation :: "metaStore \<Rightarrow> proto \<Rightarrow> string \<Rightarrow> bool" where
  "declaredRelation st cls f =
     (case getFieldOptions st cls f of
        Some ob \<Rightarrow> isRelationType (getProp ob ''appType'')
      | None \<Rightarrow> False)"

definition relationFields :: "metaStore \<Rightarrow> proto \<Rightarrow> string list" where
  "relationFields st cls = filter (declaredRelation st cls) (getMetaFields st cls)"

definition registryComplete :: "metaStore \<Rightarrow> proto \<Rightarrow> bool" where
  \<comment> \<open>every name in the field registry of the class has a field descriptor on the class\<close>
  "registryComplete st cls =
     list_all (\<lambda>f. getFieldOptions st cls f \<noteq> None) (getMetaFields st cls)"

section \<open>The repository (CrudRepository)\<close>

text \<open>
  A domain model is an instance of a class: its constructor (a prototype chain, as in the
  metadata store) and its own properties. A persistence entity is a plain object.
\<close>

record model =
  ctor :: proto
  props :: jsobj

text \<open>
  Modelled from the spec: the classes \<open>SearchQuery\<close> and \<open>ConditionHelper\<close> (with its type
  \<open>ICondition\<close>) are not among the sources. A condition is a flat mapping from fields to values
  or a boolean combination of conditions; a search query bundles a condition with the
  relations to load (sort and pagination belong to \<open>search\<close> and its helper).
\<close>

datatype icondition =
    Equals jsobj
  | AndC icondition icondition
  | OrC icondition icondition
  | NotC icondition

record searchQuery =
  condition :: icondition
  relations :: "string list"

datatype conditionOrQuery = Cond icondition | Query searchQuery

datatype event =
    GetOne searchQuery
  | GetMany searchQuery
  | Search jsobj searchQuery
  | Save jsobj
  | Remove int
  | TxBegin
  | TxCommit
  | TxRollback
  | BeforeSave "model option" model
  | AfterSave "model option" model
  | BeforeDelete int
  | AfterDelete int

text \<open>
  The state threaded through every repository operation: the rows of the table behind
  \<open>dbRepository\<close>, and the log of the calls made to the ORM and to the hooks, in order.
\<close>

record state =
  table :: "jsobj list"
  trace :: "event list"

definition log :: "event \<Rightarrow> state \<Rightarrow> state" where
  "log e s = s\<lparr>trace := trace s @ [e]\<rparr>"

primrec isPersistEvent :: "event \<Rightarrow> bool" where
  \<comment> \<open>the events of the persist sequence: the two save hooks and \<open>manager.save\<close>\<close>
  "isPersistEvent (GetOne q) = False"
| "isPersistEvent (GetMany q) = False"
| "isPersistEvent (Search d q) = False"
| "isPersistEvent (Save e) = True"
| "isPersistEvent (Remove i) = False"
| "isPersistEvent TxBegin = False"
| "isPersistEvent TxCommit = False"
| "isPersistEvent TxRollback = False"
| "isPersistEvent (BeforeSave p n) = True"
| "isPersistEvent (AfterSave p n) = True"
| "isPersistEvent (BeforeDelete i) = False"
| "isPersistEvent (AfterDelete i) = False"

text \<open>
  A save hook receives the previous and the next model; it may read the table, throw, and
  change the next model in place (the model is returned as the hook left it). A delete hook
  receives the id and may read the table and throw. The hooks are not handed the transaction's
  manager; what they write elsewhere is outside this state.
\<close>

type_synonym saveHook = "model option \<Rightarrow> model \<Rightarrow> jsobj list \<Rightarrow> error option \<times> model"
type_synonym deleteHook = "int \<Rightarrow> jsobj list \<Rightarrow> error option"

text \<open>
  \<open>modelToEntity\<close> stands for \<open>DataMapperHelper.modelToEntity(connection, model)\<close> and
  \<open>searchHelper\<close> for \<open>SearchHelper.search(dbRepository, dto, searchQuery, null)\<close> (items and
  total); both are imported helpers taken as parameters. The four hooks are the methods a
  subclass may override; \<open>className\<close> is \<open>this.constructor.name\<close>.
\<close>

record repository =
  primaryKey :: string
  modelClass :: "proto option"
  className :: string
  beforeSave :: saveHook
  afterSave :: saveHook
  beforeDelete :: deleteHook
  afterDelete :: deleteHook
  modelToEntity :: "model \<Rightarrow> jsobj"
  searchHelper :: "jsobj list \<Rightarrow> jsobj \<Rightarrow> searchQuery \<Rightarrow> error + jsobj list \<times> nat"

definition defaultSaveHook :: saveHook where
  \<comment> \<open>\<open>protected async beforeSave(prevModel, nextModel) { }\<close>, and \<open>afterSave\<close> alike\<close>
  "defaultSaveHook prevModel nextModel t = (None, nextModel)"

definition defaultDeleteHook :: deleteHook where
  \<comment> \<open>\<open>protected async beforeDelete(id) { }\<close>, and \<open>afterDelete\<close> alike\<close>
  "defaultDeleteHook i t = None"

subsection \<open>The data mapper\<close>

definition anyToModel :: "jsobj \<Rightarrow> proto \<Rightarrow> model" where
  \<comment> \<open>Modelled from the spec: \<open>DataMapperHelper.anyToModel\<close> is not among the sources. It
      constructs a new instance of the class and copies every enumerable property of the
      source, with no filtering.\<close>
  "anyToModel ob ModelClass = \<lparr>ctor = ModelClass, props = assign [] ob\<rparr>"

definition applyChangesToModel :: "model \<Rightarrow> jsobj \<Rightarrow> model" where
  \<comment> \<open>Modelled from the spec: \<open>DataMapperHelper.applyChangesToModel\<close> is not among the sources.
      For every enumerable property present on the source it overwrites the same-named
      property of the target model; the target is changed in place and returned here.\<close>
  "applyChangesToModel targetModel source = targetModel\<lparr>props := assign (props targetModel) source\<rparr>"

definition cloneDeepModel :: "model \<Rightarrow> model" where
  \<comment> \<open>\<open>_cloneDeep(prevModel)\<close>: same class, every property value cloned.\<close>
  "cloneDeepModel m = m\<lparr>props := map (map_prod id cloneDeep) (props m)\<rparr>"

subsection \<open>The table behind the ORM\<close>

primrec evalCondition :: "icondition \<Rightarrow> jsobj \<Rightarrow> bool" where
  \<comment> \<open>Modelled from the spec: \<open>ConditionHelper\<close> is not among the sources. A flat mapping is
      the conjunction of its equalities; composite conditions are boolean combinations.\<close>
  "evalCondition (Equals m) row = list_all (\<lambda>(k, v). getProp row k = v) m"
| "evalCondition (AndC a b) row = (evalCondition a row \<and> evalCondition b row)"
| "evalCondition (OrC a b) row = (evalCondition a row \<or> evalCondition b row)"
| "evalCondition (NotC a) row = (\<not> evalCondition a row)"

definition freshId :: "string \<Rightarrow> jsobj list \<Rightarrow> int" where
  \<comment> \<open>the generated key of an inserted row: one more than the largest key in the table\<close>
  "freshId pk t =
     1 + fold (\<lambda>row m. case getProp row pk of JNum n \<Rightarrow> max n m | _ \<Rightarrow> m) t 0"

definition dbSave :: "string \<Rightarrow> jsobj \<Rightarrow> jsobj list \<Rightarrow> jsobj \<times> jsobj list" where
  \<comment> \<open>\<open>manager.save(entity)\<close> of the ORM: an entity without a key is inserted under a
      generated key; an entity with a key updates the row of that key, or is inserted under
      it when there is none. The saved entity is returned with its key.\<close>
  "dbSave pk entity t =
     (if getProp entity pk = JUndefined \<or> getProp entity pk = JNull
      then (let saved = setProp entity pk (JNum (freshId pk t)) in (saved, t @ [saved]))
      else if list_ex (\<lambda>row. getProp row pk = getProp entity pk) t
      then (entity, map (\<lambda>row. if getProp row pk = getProp entity pk
                                 then assign row entity else row) t)
      else (entity, t @ [entity]))"

definition dbRemove :: "string \<Rightarrow> int \<Rightarrow> jsobj list \<Rightarrow> jsobj list" where
  \<comment> \<open>\<open>manager.remove(id)\<close>\<close>
  "dbRemove pk i t = filter (\<lambda>row. getProp row pk \<noteq> JNum i) t"

subsection \<open>Reading (findOne, findMany, search)\<close>

definition createQueryBuilder :: "conditionOrQuery \<Rightarrow> searchQuery" where
  \<comment> \<open>A bare condition is wrapped in a new \<open>SearchQuery\<close>; the query is then prepared on the
      query builder, which is represented by the query itself.\<close>
  "createQueryBuilder conditionOrQuery =
     (case conditionOrQuery of
        Query q \<Rightarrow> q
      | Cond c \<Rightarrow> \<lparr>condition = c, relations = []\<rparr>)"

definition entityToModel :: "repository \<Rightarrow> jsobj \<Rightarrow> error + model" where
  "entityToModel repo ob =
     (case modelClass repo of
        None \<Rightarrow> Inl (Misconfigured (className repo))
      | Some cls \<Rightarrow> Inr (anyToModel ob cls))"

primrec mapEntityToModel :: "repository \<Rightarrow> jsobj list \<Rightarrow> error + model list" where
  \<comment> \<open>\<open>rows.map(row => this.entityToModel(row))\<close>: the first throw ends the map\<close>
  "mapEntityToModel repo [] = Inr []"
| "mapEntityToModel repo (row # rows) =
     (case entityToModel repo row of
        Inl e \<Rightarrow> Inl e
      | Inr m \<Rightarrow> (case mapEntityToModel repo rows of Inl e \<Rightarrow> Inl e | Inr ms \<Rightarrow> Inr (m # ms)))"

definition findOne :: "repository \<Rightarrow> conditionOrQuery \<Rightarrow> state \<Rightarrow> (error + model option) \<times> state" where
  "findOne repo conditionOrQuery s =
     (let dbQuery = createQueryBuilder conditionOrQuery;
          s1 = log (GetOne dbQuery) s
      in case find (evalCondition (condition dbQuery)) (table s1) of
           None \<Rightarrow> (Inr None, s1)
         | Some row \<Rightarrow>
             (case entityToModel repo row of
                Inl e \<Rightarrow> (Inl e, s1)
              | Inr m \<Rightarrow> (Inr (Some m), s1)))"

definition findMany :: "repository \<Rightarrow> conditionOrQuery \<Rightarrow> state \<Rightarrow> (error + model list) \<times> state" where
  "findMany repo conditionOrQuery s =
     (let dbQuery = createQueryBuilder conditionOrQuery;
          s1 = log (GetMany dbQuery) s
      in (mapEntityToModel repo (filter (evalCondition (condition dbQuery)) (table s1)), s1))"

definition search ::
  "repository \<Rightarrow> jsobj \<Rightarrow> searchQuery \<Rightarrow> state \<Rightarrow> (error + model list \<times> nat) \<times> state" where
  "search repo dto q s =
     (let s1 = log (Search dto q) s
      in case searchHelper repo (table s1) dto q of
           Inl e \<Rightarrow> (Inl e, s1)
         | Inr (items, count) \<Rightarrow>
             (case mapEntityToModel repo items of
                Inl e \<Rightarrow> (Inl e, s1)
              | Inr ms \<Rightarrow> (Inr (ms, count), s1)))"

subsection \<open>Transactions\<close>

text \<open>
  A transaction handler is caller-supplied code that receives the callback. It is given as the
  script of what it does with the callback: await it (an error of the callback propagates),
  await it inside \<open>try/catch\<close> (the error is dropped), or throw.
\<close>

datatype txStep = Invoke | Attempt | Raise string

primrec runHandler ::
  "txStep list \<Rightarrow> ('m \<Rightarrow> state \<Rightarrow> error option \<times> 'm \<times> state) \<Rightarrow> 'm \<Rightarrow> state
     \<Rightarrow> error option \<times> 'm \<times> state" where
  "runHandler [] callback m s = (None, m, s)"
| "runHandler (step # rest) callback m s =
     (case step of
        Invoke \<Rightarrow>
          (case callback m s of
             (Some e, m1, s1) \<Rightarrow> (Some e, m1, s1)
           | (None, m1, s1) \<Rightarrow> runHandler rest callback m1 s1)
      | Attempt \<Rightarrow> (case callback m s of (r, m1, s1) \<Rightarrow> runHandler rest callback m1 s1)
      | Raise msg \<Rightarrow> (Some (UserError msg), m, s))"

definition transaction ::
  "('m \<Rightarrow> state \<Rightarrow> error option \<times> 'm \<times> state) \<Rightarrow> 'm \<Rightarrow> state \<Rightarrow> error option \<times> 'm \<times> state" where
  \<comment> \<open>\<open>manager.transaction(body)\<close> of the ORM: commits when the body returns, rolls the table
      back and rethrows when it throws. Objects in memory are not rolled back.\<close>
  "transaction body m s =
     (case body m (log TxBegin s) of
        (Some e, m1, s1) \<Rightarrow> (Some e, m1, log TxRollback (s1\<lparr>table := table s\<rparr>))
      | (None, m1, s1) \<Rightarrow> (None, m1, log TxCommit s1))"

subsection \<open>Writing (create, update, remove), as in the repository with hooks\<close>

definition saveHandler ::
  "repository \<Rightarrow> model option \<Rightarrow> model \<Rightarrow> state \<Rightarrow> error option \<times> model \<times> state" where
  \<comment> \<open>The closure \<open>saveHandler\<close> of \<open>create\<close> (previous model \<open>null\<close>) and of \<open>update\<close>; the
      model it works on is changed in place, so its current value is passed and returned.\<close>
  "saveHandler repo prevModel nextModel s =
     (let s1 = log (BeforeSave prevModel nextModel) s
      in case beforeSave repo prevModel nextModel (table s1) of
           (Some e, m1) \<Rightarrow> (Some e, m1, s1)
         | (None, m1) \<Rightarrow>
             (let s2 = log (Save (modelToEntity repo m1)) s1;
                  (entity, t2) = dbSave (primaryKey repo) (modelToEntity repo m1) (table s2);
                  m2 = applyChangesToModel m1 entity;
                  s3 = log (AfterSave prevModel m2) (s2\<lparr>table := t2\<rparr>)
              in case afterSave repo prevModel m2 (table s3) of
                   (r, m3) \<Rightarrow> (r, m3, s3)))"

definition runSave ::
  "txStep list option \<Rightarrow> (model \<Rightarrow> state \<Rightarrow> error option \<times> model \<times> state) \<Rightarrow> model \<Rightarrow> state
     \<Rightarrow> (error + model) \<times> state" where
  \<comment> \<open>The tail shared by \<open>create\<close> and \<open>update\<close>: inside a transaction the handler receives the
      callback, otherwise the callback runs directly; the model is returned.\<close>
  "runSave transactionHandler handler m s =
     (case (case transactionHandler of
              Some h \<Rightarrow> transaction (runHandler h handler) m s
            | None \<Rightarrow> handler m s) of
        (Some e, m1, s1) \<Rightarrow> (Inl e, s1)
      | (None, m1, s1) \<Rightarrow> (Inr m1, s1))"

definition create ::
  "repository \<Rightarrow> model \<Rightarrow> txStep list option \<Rightarrow> state \<Rightarrow> (error + model) \<times> state" where
  "create repo m transactionHandler s = runSave transactionHandler (saveHandler repo None) m s"

definition update ::
  "repository \<Rightarrow> metaStore \<Rightarrow> int \<Rightarrow> model \<Rightarrow> txStep list option \<Rightarrow> state
     \<Rightarrow> (error + model) \<times> state" where
  "update repo meta i m transactionHandler s =
     (case getMetaRelations meta (ctor m) of
        Inl e \<Rightarrow> (Inl e, s)
      | Inr rels \<Rightarrow>
          (let searchQuery = \<lparr>condition = Equals [(primaryKey repo, JNum i)],
                              relations = filter (\<lambda>key. has (props m) key) rels\<rparr>
           in case findOne repo (Query searchQuery) s of
                (Inl e, s1) \<Rightarrow> (Inl e, s1)
              | (Inr None, s1) \<Rightarrow> (Inl (NotFound i), s1)
              | (Inr (Some prevModel), s1) \<Rightarrow>
                  runSave transactionHandler (saveHandler repo (Some prevModel))
                    (applyChangesToModel (cloneDeepModel prevModel) (props m)) s1))"

definition removeCallback :: "repository \<Rightarrow> int \<Rightarrow> unit \<Rightarrow> state \<Rightarrow> error option \<times> unit \<times> state" where
  \<comment> \<open>the callback handed to the transaction handler by \<open>remove\<close>\<close>
  "removeCallback repo i u s =
     (let s1 = log (BeforeDelete i) s
      in case beforeDelete repo i (table s1) of
           Some e \<Rightarrow> (Some e, u, s1)
         | None \<Rightarrow>
             (let s2 = log (Remove i) s1;
                  s3 = log (AfterDelete i) (s2\<lparr>table := dbRemove (primaryKey repo) i (table s2)\<rparr>)
              in (afterDelete repo i (table s3), u, s3)))"

definition remove :: "repository \<Rightarrow> int \<Rightarrow> txStep list option \<Rightarrow> state \<Rightarrow> error option \<times> state" where
  "remove repo i transactionHandler s =
     (case transactionHandler of
        Some h \<Rightarrow>
          (case transaction (runHandler h (removeCallback repo i)) () s of
             (r, u, s1) \<Rightarrow> (r, s1))
      | None \<Rightarrow>
          (let s1 = log (Remove i) s
           in (None, s1\<lparr>table := dbRemove (primaryKey repo) i (table s1)\<rparr>)))"

subsection \<open>Writing, as in CrudRepository.ts (create through save)\<close>

definition saveInternal :: "repository \<Rightarrow> model \<Rightarrow> state \<Rightarrow> error option \<times> model \<times> state" where
  "saveInternal repo nextModel s =
     (let s1 = log (Save (modelToEntity repo nextModel)) s;
          (entity, t1) = dbSave (primaryKey repo) (modelToEntity repo nextModel) (table s1)
      in (None, applyChangesToModel nextModel entity, s1\<lparr>table := t1\<rparr>))"

definition save ::
  "repository \<Rightarrow> model \<Rightarrow> txStep list option \<Rightarrow> state \<Rightarrow> (error + model) \<times> state" where
  "save repo m transactionHandler s = runSave transactionHandler (saveInternal repo) m s"

definition createViaSave ::
  "repository \<Rightarrow> model \<Rightarrow> txStep list option \<Rightarrow> state \<Rightarrow> (error + model) \<times> state" where
  \<comment> \<open>\<open>create\<close> of CrudRepository.ts: \<open>model[this.primaryKey] = undefined\<close>, then \<open>save\<close>\<close>
  "createViaSave repo m transactionHandler s =
     save repo (m\<lparr>props := setProp (props m) (primaryKey repo) JUndefined\<rparr>) transactionHandler s"

section \<open>Example data\<close>

text \<open>
  A model class \<open>Post\<close> with a string field and two relation fields, a class \<open>Draft\<close> that
  extends it and declares one more field, a repository of posts with the default hooks and a
  table that holds one post.
\<close>

definition postMeta :: metaStore where
  "postMeta =
     decorateProperty (BaseField (Some [(''label'', JStr ''Tags'')]) (Some [(''appType'', JStr ''relation''), (''isArray'', JBool True)]))
       [''Post''] ''tags''
    (decorateProperty (BaseField (Some [(''label'', JStr ''Author'')]) (Some [(''appType'', JStr ''relationId'')]))
       [''Post''] ''author''
    (decorateProperty (BaseField (Some [(''label'', JStr ''Title'')]) (Some [(''appType'', JStr ''string'')]))
       [''Post''] ''title'' emptyStore))"

definition draftMeta :: metaStore where
  "draftMeta =
     decorateProperty (BaseField (Some [(''label'', JStr ''Note'')]) (Some [(''appType'', JStr ''string'')]))
       [''Draft'', ''Post''] ''note'' postMeta"

definition postRepo :: repository where
  "postRepo = \<lparr>primaryKey = ''id'', modelClass = Some [''Post''], className = ''PostRepository'',
     beforeSave = defaultSaveHook, afterSave = defaultSaveHook,
     beforeDelete = defaultDeleteHook, afterDelete = defaultDeleteHook,
     modelToEntity = props,
     searchHelper = (\<lambda>t dto q. Inr (filter (evalCondition (condition q)) t,
                                       length (filter (evalCondition (condition q)) t)))\<rparr>"

definition unsetRepo :: repository where
  "unsetRepo = postRepo\<lparr>modelClass := None\<rparr>"

definition guardedRepo :: repository where
  "guardedRepo = postRepo\<lparr>beforeDelete := (\<lambda>i t. Some (UserError ''locked''))\<rparr>"

definition postPatch :: model where
  "postPatch = \<lparr>ctor = [''Post''],
     props = [(''title'', JStr ''x''), (''tags'', JArr [JNum 3])]\<rparr>"

definition newPost :: model where
  "newPost = \<lparr>ctor = [''Post''], props = [(''id'', JNum 99), (''name'', JStr ''a'')]\<rparr>"

definition postTable :: state where
  "postTable = \<lparr>table = [[(''id'', JNum 1), (''title'', JStr ''old''), (''author'', JNum 5)]],
     trace = []\<rparr>"

definition nodeMeta :: metaStore where
  \<comment> \<open>a class \<open>Node\<close> whose one decorated property is named \<open>'a.b'\<close> and is a relation\<close>
  "nodeMeta =
     decorateProperty (BaseField (Some [(''label'', JStr ''AB'')]) (Some [(''appType'', JStr ''relation'')]))
       [''Node''] ''a.b'' emptyStore"

definition nodePatch :: model where
  \<comment> \<open>\<open>{a: {b: 1}}\<close>: no property named \<open>'a.b'\<close>\<close>
  "nodePatch = \<lparr>ctor = [''Node''], props = [(''a'', JObj [(''b'', JNum 1)])]\<rparr>"

definition emptyTable :: state where
  "emptyTable = \<lparr>table = [], trace = []\<rparr>"

section \<open>Objects and the data mapper\<close>

lemma cloneDeep_ident: "cloneDeep v = v"
  by (induction v) (auto simp: map_idI prod.map_ident intro!: map_idI)

lemma cloneDeepModel_ident: "cloneDeepModel m = m"
proof -
  have "cloneDeep = id" by (simp add: fun_eq_iff cloneDeep_ident)
  then show ?thesis by (simp add: cloneDeepModel_def prod.map_id0)
qed

lemma map_of_assign: "map_of (assign t src) = map_of t ++ map_of (rev src)"
  unfolding assign_def setProp_def
  by (induction src arbitrary: t) (auto simp: update_conv' fun_eq_iff map_add_def split: option.splits)

lemma getProp_assign:
  assumes "distinct (map fst src)"
  shows "getProp (assign t src) k = (if ownProperty src k then getProp src k else getProp t k)"
proof -
  have rv: "map_of (rev src) = map_of src"
    using assms by (simp add: map_of_inject_set distinct_map)
  show ?thesis
  proof (cases "map_of src k")
    case None
    then have "\<not> ownProperty src k" by (simp add: ownProperty_def map_of_eq_None_iff)
    with None show ?thesis by (simp add: getProp_def map_of_assign rv map_add_def)
  next
    case (Some v)
    then have "ownProperty src k"
      unfolding ownProperty_def by (metis map_of_eq_None_iff option.distinct(1) set_map)
    with Some show ?thesis by (simp add: getProp_def map_of_assign rv map_add_def)
  qed
qed

lemma has_isKey:
  assumes "isKey k ob"
  shows "has ob k = ownProperty ob k"
  using assms by (simp add: has_def castPath_def arrayIndexFallback_def)

lemma has_not_deep: "\<not> reIsDeepProp k \<Longrightarrow> has ob k = ownProperty ob k"
  by (rule has_isKey) (simp add: isKey_def)

lemma ownProperty_has: "ownProperty ob k \<Longrightarrow> has ob k"
  using has_isKey [of k ob] by (simp add: isKey_def ownProperty_def)

lemma has_examples:
  "has [(''a'', JObj [(''b'', JNum 1)])] ''a.b''
   \<and> has [(''a.b'', JNum 1)] ''a.b''
   \<and> \<not> has [(''a'', JObj [(''c'', JNum 1)])] ''a.b''
   \<and> has [(''tags'', JArr [JNum 3])] ''tags[0]''
   \<and> \<not> has [(''tags'', JArr [JNum 3])] ''tags[1]''
   \<and> stringToPath ''a[0].b.c'' = [''a'', ''0'', ''b'', ''c'']
   \<and> stringToPath ''a..b'' = [''a'', [], ''b'']
   \<and> stringToPath ''a[].b'' = [''a'', [], ''b'']
   \<and> stringToPath (''a['' @ [CHR 0x22] @ ''b.c'' @ [CHR 0x22] @ '']'') = [''a'', ''b.c'']"
  by code_simp

lemma getProp_setProp: "getProp (setProp ob k v) k = v"
  by (simp add: getProp_def setProp_def update_conv')

section \<open>Properties of the field decorators\<close>

text \<open>
  C10. \<open>BaseField\<close> called with \<open>options\<close> omitted or \<open>null\<close> throws a \<open>TypeError\<close> while the
  decorator is being built, whatever the internal options are: the argument of \<open>ApiProperty\<close>
  reads \<open>options.jsType\<close>. With both arguments non-null objects it returns the decorators.
\<close>

theorem BaseField_null_options_throws:
  "(\<exists>msg. BaseField None internalOptions = Inl (TypeError msg)) \<and>
   (\<exists>ds. BaseField (Some ob) (Some io) = Inr ds)"
  by (cases internalOptions) (simp_all add: BaseField_def Let_def)

lemma getMetadata_own:
  "object \<noteq> [] \<Longrightarrow> own object \<noteq> None \<Longrightarrow> getMetadata own object = own object"
  by (cases object) auto

lemma ColumnMetaDecorator_metaField:
  "metaField (ColumnMetaDecorator ob io object p st) = (metaField st)((object, p) \<mapsto> ob)"
  by (simp add: ColumnMetaDecorator_def Let_def split: option.splits prod.splits)

lemma ColumnMetaDecorator_metaFieldDecorator:
  "metaFieldDecorator (ColumnMetaDecorator ob io object p st) =
     (metaFieldDecorator st)((object, p) \<mapsto> getProp io ''decoratorName'')"
  by (simp add: ColumnMetaDecorator_def Let_def split: option.splits prod.splits)

lemma ColumnMetaDecorator_getMetaFields:
  assumes "object \<noteq> []"
  shows "getMetaFields (ColumnMetaDecorator ob io object p st) object = getMetaFields st object @ [p]"
  by (cases "getMetadata (metaKeys st) object")
     (simp_all add: ColumnMetaDecorator_def getMetaFields_def Let_def getMetadata_own [OF assms])

lemma getFieldOptions_ColumnMetaDecorator:
  assumes "object \<noteq> []"
  shows "getFieldOptions (ColumnMetaDecorator ob io object p st) object f =
           (if f = p then Some ob else getFieldOptions st object f)"
proof (cases "f = p")
  case True
  then show ?thesis
    by (simp add: getFieldOptions_def ColumnMetaDecorator_metaField getMetadata_own [OF assms])
next
  case False
  then have "(\<lambda>x. ((metaField st)((object, p) \<mapsto> ob)) (x, f)) = (\<lambda>x. metaField st (x, f))"
    by (simp add: fun_eq_iff)
  with False show ?thesis
    by (simp add: getFieldOptions_def ColumnMetaDecorator_metaField)
qed

text \<open>
  C7, as the code has it. Decorating the same property of the same prototype a second time
  overwrites the descriptor and the decorator name: both descriptor stores are then what the
  last decoration alone would have left (last write wins). The ordered list of field names is
  not idempotent: every decoration appends the property name, so after the second decoration
  the list ends with the name twice, where the last decoration alone appends it once.
\<close>

theorem redecoration_overwrites_descriptor_appends_name:
  assumes "object \<noteq> []"
  shows "metaField (ColumnMetaDecorator o2 io2 object p (ColumnMetaDecorator o1 io1 object p st))
           = metaField (ColumnMetaDecorator o2 io2 object p st)
       \<and> metaFieldDecorator (ColumnMetaDecorator o2 io2 object p (ColumnMetaDecorator o1 io1 object p st))
           = metaFieldDecorator (ColumnMetaDecorator o2 io2 object p st)
       \<and> getFieldOptions (ColumnMetaDecorator o2 io2 object p (ColumnMetaDecorator o1 io1 object p st))
           object p = Some o2
       \<and> getMetaFields (ColumnMetaDecorator o2 io2 object p st) object
           = getMetaFields st object @ [p]
       \<and> getMetaFields (ColumnMetaDecorator o2 io2 object p (ColumnMetaDecorator o1 io1 object p st))
           object = getMetaFields st object @ [p, p]"
proof -
  from assms obtain c cs where obj: "object = c # cs" by (cases object) auto
  have "getFieldOptions (ColumnMetaDecorator o2 io2 object p (ColumnMetaDecorator o1 io1 object p st))
           object p = Some o2"
    by (simp add: getFieldOptions_def ColumnMetaDecorator_metaField getMetadata_own [OF assms])
  then show ?thesis
    by (simp add: ColumnMetaDecorator_metaField ColumnMetaDecorator_metaFieldDecorator
          ColumnMetaDecorator_getMetaFields [OF assms])
qed

theorem redecoration_witness:
  "getFieldOptions
     (ColumnMetaDecorator [(''label'', JStr ''B'')] [] [''Post''] ''title''
       (ColumnMetaDecorator [(''label'', JStr ''A'')] [] [''Post''] ''title'' emptyStore))
     [''Post''] ''title'' = Some [(''label'', JStr ''B'')]
   \<and> getMetaFields
     (ColumnMetaDecorator [(''label'', JStr ''B'')] [] [''Post''] ''title''
       (ColumnMetaDecorator [(''label'', JStr ''A'')] [] [''Post''] ''title'' emptyStore))
     [''Post''] = [''title'', ''title'']"
proof -
  have ne: "[''Post''] \<noteq> ([] :: proto)" by simp
  have e: "getMetaFields emptyStore [''Post''] = []" by code_simp
  from redecoration_overwrites_descriptor_appends_name
    [OF ne, of "[(''label'', JStr ''B'')]" "[]" "''title''" "[(''label'', JStr ''A'')]" "[]" emptyStore,
     unfolded e]
  show ?thesis by simp
qed

text \<open>
  The claim C7 as stated fails on the list of field names: after two decorations of
  \<open>Post.title\<close> the list differs from the list after the last decoration alone.
\<close>

theorem redecoration_idempotent_counterexample:
  "getMetaFields
     (ColumnMetaDecorator [(''label'', JStr ''B'')] [] [''Post''] ''title''
       (ColumnMetaDecorator [(''label'', JStr ''A'')] [] [''Post''] ''title'' emptyStore))
     [''Post'']
   \<noteq> getMetaFields
     (ColumnMetaDecorator [(''label'', JStr ''B'')] [] [''Post''] ''title'' emptyStore) [''Post'']"
  by code_simp

text \<open>
  The registry of the prototype that is being decorated stays complete, and a complete
  registry lets \<open>getMetaRelations\<close> return.
\<close>

lemma decoration_keeps_own_registry_complete:
  assumes "object \<noteq> []" and "registryComplete st object"
  shows "registryComplete (ColumnMetaDecorator ob io object p st) object"
  using assms(2)
  by (auto simp: registryComplete_def ColumnMetaDecorator_getMetaFields [OF assms(1)]
        getFieldOptions_ColumnMetaDecorator [OF assms(1)] list_all_iff)

lemma filterRelations_complete:
  "list_all (\<lambda>f. getFieldOptions st cls f \<noteq> None) fs \<Longrightarrow> \<exists>rels. filterRelations st cls fs = Inr rels"
  by (induction fs) (auto split: option.splits sum.splits)

lemma getMetaRelations_complete:
  "registryComplete st cls \<Longrightarrow> \<exists>rels. getMetaRelations st cls = Inr rels"
  by (simp add: registryComplete_def getMetaRelations_def filterRelations_complete)

lemma filterRelations_Inr:
  "filterRelations st cls fs = Inr rels \<Longrightarrow> rels = filter (declaredRelation st cls) fs"
  by (induction fs arbitrary: rels)
     (auto simp: declaredRelation_def split: option.splits sum.splits if_splits)

lemma getMetaRelations_Inr:
  "getMetaRelations st cls = Inr rels \<Longrightarrow> rels = relationFields st cls"
  by (simp add: getMetaRelations_def relationFields_def filterRelations_Inr)

text \<open>
  C8 at a failing input. \<open>Draft\<close> extends \<open>Post\<close>; decorating \<open>Draft.note\<close> reads the array of
  field names through the prototype chain, so it pushes \<open>note\<close> onto the array that \<open>Post\<close>
  owns, while the descriptor of \<open>note\<close> is written on \<open>Draft\<close> only. The registry of \<open>Post\<close>
  then lists \<open>note\<close>, \<open>Post\<close> has no descriptor for it, and \<open>getMetaRelations\<close> on \<open>Post\<close>
  throws on reading \<open>appType\<close> of the missing descriptor (before \<open>Draft\<close> was decorated it
  returned the two relations); \<open>update\<close> of a post fails with that error.
\<close>

theorem subclass_decoration_breaks_parent_registry:
  "getMetaFields draftMeta [''Post''] = [''title'', ''author'', ''tags'', ''note'']
   \<and> getFieldOptions draftMeta [''Post''] ''note'' = None
   \<and> getMetaRelations draftMeta [''Post''] = Inl (TypeError ''options.appType'')
   \<and> getMetaRelations postMeta [''Post''] = Inr [''author'', ''tags'']
   \<and> fst (update postRepo draftMeta 1 postPatch None postTable) = Inl (TypeError ''options.appType'')"
  by code_simp

section \<open>Traces of the repository operations\<close>

lemma saveHandler_trace:
  "\<exists>evs. trace (snd (snd (saveHandler repo prev m s))) = trace s @ evs \<and> list_all isPersistEvent evs"
  by (auto simp: saveHandler_def log_def Let_def split: prod.splits option.splits)

lemma saveHandler_first_events:
  assumes "beforeSave repo prev m (table s) = (None, m)"
  shows "\<exists>rest. trace (snd (snd (saveHandler repo prev m s))) =
           trace s @ BeforeSave prev m # Save (modelToEntity repo m) # rest"
  using assms by (auto simp: saveHandler_def log_def Let_def split: prod.splits option.splits)

lemma runHandler_trace:
  assumes cb: "\<And>m s. \<exists>evs. trace (snd (snd (cb m s))) = trace s @ evs \<and> list_all P evs"
  shows "\<exists>evs. trace (snd (snd (runHandler h cb m s))) = trace s @ evs \<and> list_all P evs"
proof (induction h arbitrary: m s)
  case Nil
  show ?case by simp
next
  case (Cons step rest)
  obtain r m1 s1 where run: "cb m s = (r, m1, s1)" by (cases "cb m s") auto
  from cb [of m s] run obtain evs1 where
    e1: "trace s1 = trace s @ evs1" "list_all P evs1" by auto
  from Cons.IH [of m1 s1] obtain evs2 where
    e2: "trace (snd (snd (runHandler rest cb m1 s1))) = trace s1 @ evs2" "list_all P evs2" by auto
  show ?case
  proof (cases step)
    case Invoke
    show ?thesis
    proof (cases r)
      case None
      with Invoke run e1 e2 show ?thesis by (intro exI [of _ "evs1 @ evs2"]) simp
    next
      case (Some e)
      with Invoke run e1 show ?thesis by (intro exI [of _ evs1]) simp
    qed
  next
    case Attempt
    with run e1 e2 show ?thesis by (intro exI [of _ "evs1 @ evs2"]) simp
  next
    case (Raise msg)
    then show ?thesis by simp
  qed
qed

lemma runHandler_Invoke_first:
  assumes first: "trace (snd (snd (cb m s))) = trace s @ pre"
      and ext: "\<And>m s. \<exists>evs. trace (snd (snd (cb m s))) = trace s @ evs \<and> list_all P evs"
  shows "\<exists>rest. trace (snd (snd (runHandler (Invoke # h) cb m s))) = trace s @ pre @ rest"
proof -
  obtain r m1 s1 where run: "cb m s = (r, m1, s1)" by (cases "cb m s") auto
  with first have s1: "trace s1 = trace s @ pre" by simp
  from runHandler_trace [of cb P h m1 s1, OF ext] obtain evs where
    "trace (snd (snd (runHandler h cb m1 s1))) = trace s1 @ evs" by blast
  with run s1 show ?thesis by (cases r) auto
qed

lemma transaction_trace:
  assumes body: "\<And>m s. \<exists>evs. trace (snd (snd (body m s))) = trace s @ evs \<and> list_all P evs"
  shows "\<exists>evs fin. trace (snd (snd (transaction body m s))) = trace s @ TxBegin # evs @ [fin]
           \<and> list_all P evs \<and> (fin = TxCommit \<or> fin = TxRollback)"
proof -
  obtain r m1 s1 where run: "body m (log TxBegin s) = (r, m1, s1)"
    by (cases "body m (log TxBegin s)") auto
  from body [of m "log TxBegin s"] run obtain evs where
    e: "trace s1 = trace s @ TxBegin # evs" "list_all P evs" by (auto simp: log_def)
  show ?thesis
    using run e by (cases r) (auto simp: transaction_def log_def)
qed

lemma transaction_prefix:
  "\<exists>fin. trace (snd (snd (transaction body m s))) =
          trace (snd (snd (body m (log TxBegin s)))) @ [fin] \<and> (fin = TxCommit \<or> fin = TxRollback)"
  by (auto simp: transaction_def log_def split: prod.splits option.splits)

lemma transaction_rollback:
  "fst (transaction body m s) = Some e \<Longrightarrow> table (snd (snd (transaction body m s))) = table s"
  by (auto simp: transaction_def log_def split: prod.splits option.splits)

lemma runSave_state:
  "snd (runSave None cb m s) = snd (snd (cb m s))"
  "snd (runSave (Some h) cb m s) = snd (snd (transaction (runHandler h cb) m s))"
  by (auto simp: runSave_def split: prod.splits option.splits)

lemma runSave_trace:
  assumes cb: "\<And>m s. \<exists>evs. trace (snd (snd (cb m s))) = trace s @ evs \<and> list_all P evs"
  shows "\<exists>evs. trace (snd (runSave txh cb m s)) = trace s @ evs"
proof (cases txh)
  case None
  from cb [of m s] show ?thesis
    using None by (auto simp: runSave_def split: prod.splits option.splits)
next
  case (Some h)
  have "\<And>m s. \<exists>evs. trace (snd (snd (runHandler h cb m s))) = trace s @ evs \<and> list_all P evs"
    by (rule runHandler_trace) (rule cb)
  from transaction_trace [of "runHandler h cb" P m s, OF this]
  show ?thesis
    using Some by (auto simp: runSave_def split: prod.splits option.splits)
qed

lemma findOne_trace:
  "snd (findOne repo cq s) = log (GetOne (createQueryBuilder cq)) s"
  by (simp add: findOne_def Let_def split: option.splits sum.splits)

lemma find_absent:
  assumes "\<forall>row\<in>set t. getProp row pk \<noteq> JNum i"
  shows "find (evalCondition (Equals [(pk, JNum i)])) t = None"
  using assms by (simp add: find_None_iff)

lemma update_found:
  assumes rels: "getMetaRelations meta (ctor m) = Inr rels"
      and row: "find (evalCondition (Equals [(primaryKey repo, JNum i)])) (table s) = Some row"
      and cls: "modelClass repo = Some cls"
  shows "update repo meta i m transactionHandler s =
           runSave transactionHandler (saveHandler repo (Some (anyToModel row cls)))
             (applyChangesToModel (cloneDeepModel (anyToModel row cls)) (props m))
             (log (GetOne \<lparr>condition = Equals [(primaryKey repo, JNum i)],
                           relations = filter (has (props m)) rels\<rparr>) s)"
  using assms
  by (simp add: update_def findOne_def createQueryBuilder_def entityToModel_def log_def Let_def)

lemma update_trace_starts_with_locate:
  assumes "getMetaRelations meta (ctor m) = Inr rels"
  shows "\<exists>rest. trace (snd (update repo meta i m txh s)) =
           trace s @ GetOne \<lparr>condition = Equals [(primaryKey repo, JNum i)],
                             relations = filter (has (props m)) rels\<rparr> # rest"
proof -
  let ?q = "\<lparr>condition = Equals [(primaryKey repo, JNum i)], relations = filter (has (props m)) rels\<rparr>"
  obtain r s1 where f: "findOne repo (Query ?q) s = (r, s1)" by (cases "findOne repo (Query ?q) s") auto
  with findOne_trace [of repo "Query ?q" s] have s1: "s1 = log (GetOne ?q) s"
    by (simp add: createQueryBuilder_def)
  show ?thesis
  proof (cases r)
    case (Inl e)
    with assms f s1 show ?thesis by (simp add: update_def log_def)
  next
    case (Inr found)
    show ?thesis
    proof (cases found)
      case None
      with Inr assms f s1 show ?thesis by (simp add: update_def log_def)
    next
      case (Some prev)
      from runSave_trace [of "saveHandler repo (Some prev)" isPersistEvent txh
            "applyChangesToModel (cloneDeepModel prev) (props m)" s1, OF saveHandler_trace]
      obtain evs where "trace (snd (runSave txh (saveHandler repo (Some prev))
          (applyChangesToModel (cloneDeepModel prev) (props m)) s1)) = trace s1 @ evs" by auto
      with Some Inr assms f s1 show ?thesis by (simp add: update_def log_def)
    qed
  qed
qed

section \<open>Properties of update\<close>

text \<open>
  C1. For a model class whose field metadata is complete (\<open>getMetaRelations\<close> returns), and
  an id that no row of the table has, \<open>update\<close> fails with \<open>NotFound\<close> for that id, with or
  without a transaction handler. The only call it has made is the locate query; the table is
  unchanged and neither \<open>beforeSave\<close> nor \<open>afterSave\<close> (nor \<open>save\<close>) has been invoked.
\<close>

theorem update_missing_id_fails_NotFound:
  assumes rels: "getMetaRelations meta (ctor m) = Inr rels"
      and absent: "\<forall>row\<in>set (table s). getProp row (primaryKey repo) \<noteq> JNum i"
  shows "update repo meta i m transactionHandler s =
           (Inl (NotFound i),
            log (GetOne \<lparr>condition = Equals [(primaryKey repo, JNum i)],
                          relations = filter (has (props m)) rels\<rparr>) s)
         \<and> filter isPersistEvent (trace (snd (update repo meta i m transactionHandler s)))
             = filter isPersistEvent (trace s)"
proof -
  have none: "find (evalCondition (Equals [(primaryKey repo, JNum i)])) (table s) = None"
    using absent by (rule find_absent)
  have eq: "update repo meta i m transactionHandler s =
           (Inl (NotFound i),
            log (GetOne \<lparr>condition = Equals [(primaryKey repo, JNum i)],
                          relations = filter (has (props m)) rels\<rparr>) s)"
    using rels none
    by (simp add: update_def findOne_def createQueryBuilder_def log_def Let_def)
  show ?thesis
    unfolding eq by (simp add: log_def)
qed

theorem update_missing_id_witness:
  "update postRepo postMeta 7 postPatch (Some [Invoke]) postTable =
     (Inl (NotFound 7),
      log (GetOne \<lparr>condition = Equals [(''id'', JNum 7)], relations = [''tags'']\<rparr>) postTable)
   \<and> filter isPersistEvent
        (trace (snd (update postRepo postMeta 7 postPatch (Some [Invoke]) postTable))) = []"
proof -
  have rels: "getMetaRelations postMeta (ctor postPatch) = Inr [''author'', ''tags'']"
    by code_simp
  have absent: "\<forall>row\<in>set (table postTable). getProp row (primaryKey postRepo) \<noteq> JNum 7"
    by (simp add: postTable_def postRepo_def getProp_def)
  have pk: "primaryKey postRepo = ''id''" by (simp add: postRepo_def)
  have flt: "filter (has (props postPatch)) [''author'', ''tags''] = [''tags'']"
    by code_simp
  have tr: "trace postTable = []" by (simp add: postTable_def)
  show ?thesis
    by (rule update_missing_id_fails_NotFound
          [OF rels absent, of "Some [Invoke]", unfolded pk flt tr filter.simps(1)])
qed

text \<open>
  C2, as the code has it. The search query that \<open>update\<close> builds to locate the previous state
  has the condition \<open>{primaryKey: id}\<close>, and its relations are exactly the declared field names,
  in the order of the registry, whose descriptor has the application type \<open>relation\<close> or
  \<open>relationId\<close> and for which lodash \<open>has\<close> holds on the incoming model. For a field name
  without path syntax (no dot, no bracket pair) that is: the name is an own property of the
  incoming model, and a declared relation field absent from the model is left out. A declared
  relation field that is an own property of the model is always among the relations. (When
  the metadata lookup throws, no query is built.)
\<close>

theorem update_relations_by_has:
  assumes rels: "getMetaRelations meta (ctor m) = Inr rels"
  shows "\<exists>q rest.
           trace (snd (update repo meta i m transactionHandler s)) = trace s @ GetOne q # rest
         \<and> condition q = Equals [(primaryKey repo, JNum i)]
         \<and> relations q =
             filter (\<lambda>f. declaredRelation meta (ctor m) f \<and> has (props m) f)
               (getMetaFields meta (ctor m))
         \<and> (\<forall>f. \<not> reIsDeepProp f \<longrightarrow>
               (f \<in> set (relations q)) =
               (f \<in> set (relationFields meta (ctor m)) \<and> ownProperty (props m) f))
         \<and> (\<forall>f. f \<in> set (relationFields meta (ctor m)) \<longrightarrow> ownProperty (props m) f \<longrightarrow>
               f \<in> set (relations q))"
proof -
  let ?q = "\<lparr>condition = Equals [(primaryKey repo, JNum i)], relations = filter (has (props m)) rels\<rparr>"
  from update_trace_starts_with_locate [OF rels] obtain rest where
    tr: "trace (snd (update repo meta i m transactionHandler s)) = trace s @ GetOne ?q # rest"
    by blast
  have r: "rels = relationFields meta (ctor m)"
    using rels by (rule getMetaRelations_Inr)
  have l: "relations ?q =
             filter (\<lambda>f. declaredRelation meta (ctor m) f \<and> has (props m) f)
               (getMetaFields meta (ctor m))"
    by (simp add: r relationFields_def conj_commute)
  have plain: "(f \<in> set (relations ?q)) =
                 (f \<in> set (relationFields meta (ctor m)) \<and> ownProperty (props m) f)"
    if "\<not> reIsDeepProp f" for f
    using has_not_deep [OF that, of "props m"] by (auto simp: r)
  have own: "f \<in> set (relations ?q)"
    if "f \<in> set (relationFields meta (ctor m))" "ownProperty (props m) f" for f
    using that ownProperty_has [of "props m" f] by (simp add: r)
  from tr l plain own show ?thesis
    by (intro exI [of _ ?q] exI [of _ rest]) simp
qed

text \<open>
  The example of the specification: the declared relations are \<open>author\<close> and \<open>tags\<close>, the
  incoming model has \<open>title\<close> and \<open>tags\<close>, and the relations of the query are \<open>tags\<close> alone.
\<close>

theorem update_relations_witness:
  "\<exists>q rest. trace (snd (update postRepo postMeta 1 postPatch None postTable)) = GetOne q # rest
      \<and> relations q = [''tags'']
      \<and> ''author'' \<in> set (relationFields postMeta (ctor postPatch))
      \<and> ''author'' \<notin> set (relations q)"
proof -
  have rels: "getMetaRelations postMeta (ctor postPatch) = Inr [''author'', ''tags'']"
    by code_simp
  have flt: "filter (\<lambda>f. declaredRelation postMeta (ctor postPatch) f \<and> has (props postPatch) f)
               (getMetaFields postMeta (ctor postPatch)) = [''tags'']"
    by code_simp
  have tr: "trace postTable = []" by (simp add: postTable_def)
  have plain: "\<not> reIsDeepProp ''author''" by code_simp
  have decl: "''author'' \<in> set (relationFields postMeta (ctor postPatch))" by code_simp
  have absent: "\<not> ownProperty (props postPatch) ''author''" by code_simp
  from update_relations_by_has [OF rels, of postRepo 1 None postTable, unfolded flt tr]
  obtain q rest where
    q: "trace (snd (update postRepo postMeta 1 postPatch None postTable)) = [] @ GetOne q # rest"
      "relations q = [''tags'']"
      "\<forall>f. \<not> reIsDeepProp f \<longrightarrow>
         (f \<in> set (relations q)) =
         (f \<in> set (relationFields postMeta (ctor postPatch)) \<and> ownProperty (props postPatch) f)"
    by blast
  from q(3) plain absent have "''author'' \<notin> set (relations q)" by blast
  with q(1,2) decl show ?thesis by auto
qed

text \<open>
  The claim C2 as stated fails for a field name with path syntax. The class \<open>Node\<close> declares
  the relation field \<open>'a.b'\<close>; the incoming model \<open>{a: {b: 1}}\<close> has no own property of that
  name, so no declared relation field is present as an own property, yet \<open>has\<close> follows the
  path and the query asks for the relation \<open>'a.b'\<close>.
\<close>

theorem update_relations_own_property_counterexample:
  "trace (snd (update postRepo nodeMeta 1 nodePatch None emptyTable)) =
     [GetOne \<lparr>condition = Equals [(''id'', JNum 1)], relations = [''a.b'']\<rparr>]
   \<and> filter (\<lambda>f. declaredRelation nodeMeta (ctor nodePatch) f \<and> ownProperty (props nodePatch) f)
       (getMetaFields nodeMeta (ctor nodePatch)) = []"
  by code_simp

text \<open>
  C5. When the previous state exists, the next state is the deep clone of the previous model
  with the incoming model's properties applied: it has the class of the previous model, every
  property present on the incoming model has the incoming value as a whole, and every other
  property has the value of the previous state. This next state is what \<open>beforeSave\<close> receives
  together with the previous model, directly or as the first thing inside the transaction; and
  when \<open>beforeSave\<close> returns without changing it (as the default hook does), its entity is
  what is saved.
\<close>

theorem update_next_state_overlays_patch:
  fixes prevModel nextModel :: model
  assumes rels: "getMetaRelations meta (ctor m) = Inr rels"
      and row: "find (evalCondition (Equals [(primaryKey repo, JNum i)])) (table s) = Some row"
      and cls: "modelClass repo = Some cls"
      and wf: "distinct (map fst (props m))"
      and prv: "prevModel = anyToModel row cls"
      and nxt: "nextModel = applyChangesToModel (cloneDeepModel prevModel) (props m)"
      and hook: "beforeSave repo (Some prevModel) nextModel (table s) = (None, nextModel)"
  shows "(\<exists>q rest. trace (snd (update repo meta i m None s)) =
            trace s @ GetOne q # BeforeSave (Some prevModel) nextModel # Save (modelToEntity repo nextModel) # rest)
       \<and> (\<exists>q rest. trace (snd (update repo meta i m (Some (Invoke # h)) s)) =
            trace s @ GetOne q # TxBegin # BeforeSave (Some prevModel) nextModel
              # Save (modelToEntity repo nextModel) # rest)
       \<and> ctor nextModel = ctor prevModel
       \<and> (\<forall>k. getProp (props nextModel) k =
                (if ownProperty (props m) k then getProp (props m) k
                 else getProp (props prevModel) k))"
proof -
  let ?q = "\<lparr>condition = Equals [(primaryKey repo, JNum i)], relations = filter (has (props m)) rels\<rparr>"
  let ?s1 = "log (GetOne ?q) s"
  let ?cb = "saveHandler repo (Some prevModel)"
  have upd: "\<And>th. update repo meta i m th s = runSave th ?cb nextModel ?s1"
    unfolding prv nxt using rels row cls by (rule update_found)
  have hook1: "beforeSave repo (Some prevModel) nextModel (table ?s1) = (None, nextModel)"
    using hook by (simp add: log_def)
  from saveHandler_first_events [OF hook1] obtain rest1 where
    direct: "trace (snd (snd (?cb nextModel ?s1))) =
       trace ?s1 @ BeforeSave (Some prevModel) nextModel # Save (modelToEntity repo nextModel) # rest1"
    by blast
  have a: "\<exists>q rest. trace (snd (update repo meta i m None s)) =
            trace s @ GetOne q # BeforeSave (Some prevModel) nextModel # Save (modelToEntity repo nextModel) # rest"
    using direct
    by (intro exI [of _ ?q] exI [of _ rest1]) (simp add: upd runSave_state log_def)
  have hook2: "beforeSave repo (Some prevModel) nextModel (table (log TxBegin ?s1)) = (None, nextModel)"
    using hook by (simp add: log_def)
  from saveHandler_first_events [OF hook2] obtain rest2 where
    inner: "trace (snd (snd (?cb nextModel (log TxBegin ?s1)))) =
       trace (log TxBegin ?s1) @ (BeforeSave (Some prevModel) nextModel # Save (modelToEntity repo nextModel) # rest2)"
    by blast
  from runHandler_Invoke_first [of ?cb nextModel "log TxBegin ?s1" _ isPersistEvent h, OF inner saveHandler_trace]
  obtain rest3 where
    body: "trace (snd (snd (runHandler (Invoke # h) ?cb nextModel (log TxBegin ?s1)))) =
       trace (log TxBegin ?s1) @ (BeforeSave (Some prevModel) nextModel # Save (modelToEntity repo nextModel) # rest2) @ rest3"
    by blast
  from transaction_prefix [of "runHandler (Invoke # h) ?cb" nextModel ?s1] obtain fin where
    tx: "trace (snd (snd (transaction (runHandler (Invoke # h) ?cb) nextModel ?s1))) =
       trace (snd (snd (runHandler (Invoke # h) ?cb nextModel (log TxBegin ?s1)))) @ [fin]"
    by blast
  have b: "\<exists>q rest. trace (snd (update repo meta i m (Some (Invoke # h)) s)) =
            trace s @ GetOne q # TxBegin # BeforeSave (Some prevModel) nextModel
              # Save (modelToEntity repo nextModel) # rest"
    using tx body
    by (intro exI [of _ ?q] exI [of _ "rest2 @ rest3 @ [fin]"]) (simp add: upd runSave_state log_def)
  have c: "ctor nextModel = ctor prevModel"
    by (simp add: nxt applyChangesToModel_def cloneDeepModel_def)
  have d: "\<forall>k. getProp (props nextModel) k =
                (if ownProperty (props m) k then getProp (props m) k
                 else getProp (props prevModel) k)"
    using getProp_assign [OF wf] by (simp add: nxt applyChangesToModel_def cloneDeepModel_ident)
  from a b c d show ?thesis by blast
qed

theorem update_next_state_witness:
  "(\<exists>q rest. trace (snd (update postRepo postMeta 1 postPatch None postTable)) =
      GetOne q
      # BeforeSave
          (Some \<lparr>ctor = [''Post''],
                  props = [(''id'', JNum 1), (''title'', JStr ''old''), (''author'', JNum 5)]\<rparr>)
          \<lparr>ctor = [''Post''],
            props = [(''id'', JNum 1), (''title'', JStr ''x''), (''author'', JNum 5),
                     (''tags'', JArr [JNum 3])]\<rparr>
      # Save [(''id'', JNum 1), (''title'', JStr ''x''), (''author'', JNum 5),
              (''tags'', JArr [JNum 3])]
      # rest)"
proof -
  let ?row = "[(''id'', JNum 1), (''title'', JStr ''old''), (''author'', JNum 5)]"
  let ?prev = "\<lparr>ctor = [''Post''], props = ?row\<rparr>"
  let ?next = "\<lparr>ctor = [''Post''],
            props = [(''id'', JNum 1), (''title'', JStr ''x''), (''author'', JNum 5),
                     (''tags'', JArr [JNum 3])]\<rparr>"
  have rels: "getMetaRelations postMeta (ctor postPatch) = Inr [''author'', ''tags'']"
    by code_simp
  have row: "find (evalCondition (Equals [(primaryKey postRepo, JNum 1)])) (table postTable)
      = Some ?row"
    by code_simp
  have cls: "modelClass postRepo = Some [''Post'']" by (simp add: postRepo_def)
  have wf: "distinct (map fst (props postPatch))" by code_simp
  have prv: "?prev = anyToModel ?row [''Post'']" by code_simp
  have nxt: "?next = applyChangesToModel (cloneDeepModel ?prev) (props postPatch)" by code_simp
  have hook: "beforeSave postRepo (Some ?prev) ?next (table postTable) = (None, ?next)"
    by (simp add: postRepo_def defaultSaveHook_def)
  have ent: "modelToEntity postRepo ?next = props ?next" by (simp add: postRepo_def)
  have tr: "trace postTable = []" by (simp add: postTable_def)
  from update_next_state_overlays_patch [OF rels row cls wf prv nxt hook, unfolded ent tr]
  show ?thesis by simp
qed

text \<open>
  C6, as the code has it. With a transaction handler supplied, \<open>update\<close> locates the previous
  state first, outside the transaction: the locate query precedes the begin of the
  transaction, and between begin and commit or rollback only the events of the persist
  sequence occur (as often as the handler invokes its callback). When \<open>update\<close> fails inside
  the transaction the table is as it was before the call.
\<close>

theorem update_locates_outside_transaction:
  assumes rels: "getMetaRelations meta (ctor m) = Inr rels"
      and row: "find (evalCondition (Equals [(primaryKey repo, JNum i)])) (table s) = Some row"
      and cls: "modelClass repo = Some cls"
  shows "(\<exists>evs fin. trace (snd (update repo meta i m (Some h) s)) =
            trace s @ [GetOne \<lparr>condition = Equals [(primaryKey repo, JNum i)],
                               relations = filter (has (props m)) rels\<rparr>, TxBegin] @ evs @ [fin]
            \<and> list_all isPersistEvent evs \<and> (fin = TxCommit \<or> fin = TxRollback))
       \<and> (\<forall>e. fst (update repo meta i m (Some h) s) = Inl e \<longrightarrow>
              table (snd (update repo meta i m (Some h) s)) = table s)"
proof -
  let ?q = "\<lparr>condition = Equals [(primaryKey repo, JNum i)], relations = filter (has (props m)) rels\<rparr>"
  let ?s1 = "log (GetOne ?q) s"
  let ?cb = "saveHandler repo (Some (anyToModel row cls))"
  let ?nx = "applyChangesToModel (cloneDeepModel (anyToModel row cls)) (props m)"
  let ?tx = "transaction (runHandler h ?cb) ?nx ?s1"
  have upd: "update repo meta i m (Some h) s = runSave (Some h) ?cb ?nx ?s1"
    using rels row cls by (rule update_found)
  have ext: "\<And>m s. \<exists>evs. trace (snd (snd (runHandler h ?cb m s))) = trace s @ evs
               \<and> list_all isPersistEvent evs"
    by (rule runHandler_trace) (rule saveHandler_trace)
  from transaction_trace [of "runHandler h ?cb" isPersistEvent ?nx ?s1, OF ext]
  obtain evs fin where
    tr: "trace (snd (snd ?tx)) = trace ?s1 @ TxBegin # evs @ [fin]"
      "list_all isPersistEvent evs" "fin = TxCommit \<or> fin = TxRollback"
    by blast
  have a: "\<exists>evs fin. trace (snd (update repo meta i m (Some h) s)) =
            trace s @ [GetOne ?q, TxBegin] @ evs @ [fin]
            \<and> list_all isPersistEvent evs \<and> (fin = TxCommit \<or> fin = TxRollback)"
    using tr by (intro exI [of _ evs] exI [of _ fin]) (simp add: upd runSave_state log_def)
  have b: "table (snd (update repo meta i m (Some h) s)) = table s"
    if "fst (update repo meta i m (Some h) s) = Inl e" for e
  proof -
    from that have "fst ?tx = Some e"
      by (auto simp: upd runSave_def split: prod.splits option.splits)
    then have "table (snd (snd ?tx)) = table ?s1" by (rule transaction_rollback)
    then show ?thesis by (simp add: upd runSave_state log_def)
  qed
  from a b show ?thesis by blast
qed

theorem update_locates_outside_transaction_witness:
  "trace (snd (update postRepo postMeta 1 postPatch (Some [Invoke, Raise ''stop'']) postTable)) =
     [GetOne \<lparr>condition = Equals [(''id'', JNum 1)], relations = [''tags'']\<rparr>, TxBegin,
      BeforeSave
          (Some \<lparr>ctor = [''Post''],
                  props = [(''id'', JNum 1), (''title'', JStr ''old''), (''author'', JNum 5)]\<rparr>)
          \<lparr>ctor = [''Post''],
            props = [(''id'', JNum 1), (''title'', JStr ''x''), (''author'', JNum 5),
                     (''tags'', JArr [JNum 3])]\<rparr>,
      Save [(''id'', JNum 1), (''title'', JStr ''x''), (''author'', JNum 5),
              (''tags'', JArr [JNum 3])],
      AfterSave
          (Some \<lparr>ctor = [''Post''],
                  props = [(''id'', JNum 1), (''title'', JStr ''old''), (''author'', JNum 5)]\<rparr>)
          \<lparr>ctor = [''Post''],
            props = [(''id'', JNum 1), (''title'', JStr ''x''), (''author'', JNum 5),
                     (''tags'', JArr [JNum 3])]\<rparr>,
      TxRollback]
   \<and> fst (update postRepo postMeta 1 postPatch (Some [Invoke, Raise ''stop'']) postTable)
       = Inl (UserError ''stop'')
   \<and> table (snd (update postRepo postMeta 1 postPatch (Some [Invoke, Raise ''stop'']) postTable))
       = table postTable"
proof -
  let ?row = "[(''id'', JNum 1), (''title'', JStr ''old''), (''author'', JNum 5)]"
  have rels: "getMetaRelations postMeta (ctor postPatch) = Inr [''author'', ''tags'']"
    by code_simp
  have row: "find (evalCondition (Equals [(primaryKey postRepo, JNum 1)])) (table postTable)
      = Some ?row"
    by code_simp
  have cls: "modelClass postRepo = Some [''Post'']" by (simp add: postRepo_def)
  have err: "fst (update postRepo postMeta 1 postPatch (Some [Invoke, Raise ''stop'']) postTable)
       = Inl (UserError ''stop'')"
    by code_simp
  have tr: "trace (snd (update postRepo postMeta 1 postPatch (Some [Invoke, Raise ''stop'']) postTable)) =
     [GetOne \<lparr>condition = Equals [(''id'', JNum 1)], relations = [''tags'']\<rparr>, TxBegin,
      BeforeSave
          (Some \<lparr>ctor = [''Post''],
                  props = [(''id'', JNum 1), (''title'', JStr ''old''), (''author'', JNum 5)]\<rparr>)
          \<lparr>ctor = [''Post''],
            props = [(''id'', JNum 1), (''title'', JStr ''x''), (''author'', JNum 5),
                     (''tags'', JArr [JNum 3])]\<rparr>,
      Save [(''id'', JNum 1), (''title'', JStr ''x''), (''author'', JNum 5),
              (''tags'', JArr [JNum 3])],
      AfterSave
          (Some \<lparr>ctor = [''Post''],
                  props = [(''id'', JNum 1), (''title'', JStr ''old''), (''author'', JNum 5)]\<rparr>)
          \<lparr>ctor = [''Post''],
            props = [(''id'', JNum 1), (''title'', JStr ''x''), (''author'', JNum 5),
                     (''tags'', JArr [JNum 3])]\<rparr>,
      TxRollback]"
    by code_simp
  from update_locates_outside_transaction [OF rels row cls, of "[Invoke, Raise ''stop'']"] err
  have "table (snd (update postRepo postMeta 1 postPatch (Some [Invoke, Raise ''stop'']) postTable))
       = table postTable"
    by blast
  with tr err show ?thesis by blast
qed

text \<open>
  The claim C6 as stated fails: a handler that never invokes the callback it receives still
  sees the locate query run, before the transaction begins.
\<close>

theorem update_locate_inside_callback_counterexample:
  "trace (snd (update postRepo postMeta 1 postPatch (Some []) postTable)) =
     [GetOne \<lparr>condition = Equals [(''id'', JNum 1)], relations = [''tags'']\<rparr>, TxBegin, TxCommit]"
  by code_simp

section \<open>Properties of create and remove\<close>

text \<open>
  C3 at a failing input. \<open>create\<close> of the repository with hooks passes the incoming model to
  \<open>beforeSave\<close> and to \<open>manager.save\<close> with the primary key the caller set: \<open>create({id: 99,
  name: 'a'})\<close> on an empty table stores a row with id 99. \<open>create\<close> of CrudRepository.ts sets the
  key to \<open>undefined\<close> first, and the same call stores a row with the generated id 1.
\<close>

theorem create_keeps_preset_primary_key:
  "create postRepo newPost None emptyTable =
     (Inr newPost,
      \<lparr>table = [[(''id'', JNum 99), (''name'', JStr ''a'')]],
       trace = [BeforeSave None newPost, Save [(''id'', JNum 99), (''name'', JStr ''a'')],
                AfterSave None newPost]\<rparr>)
   \<and> createViaSave postRepo newPost None emptyTable =
     (Inr \<lparr>ctor = [''Post''], props = [(''id'', JNum 1), (''name'', JStr ''a'')]\<rparr>,
      \<lparr>table = [[(''id'', JNum 1), (''name'', JStr ''a'')]],
       trace = [Save [(''id'', JUndefined), (''name'', JStr ''a'')]]\<rparr>)"
  by code_simp

text \<open>
  For every model, \<open>create\<close> of the repository with hooks hands the model to \<open>beforeSave\<close> as it
  came in, and saves its entity when the hook leaves it unchanged; \<open>create\<close> of
  CrudRepository.ts clears the key of every model before the entity is saved.
\<close>

lemma create_passes_model_as_given:
  assumes "beforeSave repo None m (table s) = (None, m)"
  shows "\<exists>rest. trace (snd (create repo m None s)) =
           trace s @ BeforeSave None m # Save (modelToEntity repo m) # rest"
  using saveHandler_first_events [OF assms]
  by (simp add: create_def runSave_state)


lemma createViaSave_clears_primary_key:
  "\<exists>entity rest.
     trace (snd (createViaSave repo m None s)) = trace s @ Save entity # rest
   \<and> entity = modelToEntity repo (m\<lparr>props := setProp (props m) (primaryKey repo) JUndefined\<rparr>)
   \<and> getProp (props (m\<lparr>props := setProp (props m) (primaryKey repo) JUndefined\<rparr>)) (primaryKey repo)
       = JUndefined"
  by (simp add: createViaSave_def save_def saveInternal_def runSave_def log_def Let_def
        getProp_setProp split: prod.splits)

text \<open>
  C4 at a failing input. Without a transaction handler \<open>remove\<close> calls \<open>manager.remove\<close> only:
  neither \<open>beforeDelete\<close> nor \<open>afterDelete\<close> runs, while with a handler that invokes its callback
  both run around the removal. With a \<open>beforeDelete\<close> override that refuses the deletion, the
  row is kept inside a transaction and deleted without one.
\<close>

theorem remove_without_transaction_skips_hooks:
  "remove postRepo 1 None postTable = (None, \<lparr>table = [], trace = [Remove 1]\<rparr>)
   \<and> remove postRepo 1 (Some [Invoke]) postTable =
       (None, \<lparr>table = [], trace = [TxBegin, BeforeDelete 1, Remove 1, AfterDelete 1, TxCommit]\<rparr>)
   \<and> remove guardedRepo 1 None postTable = (None, \<lparr>table = [], trace = [Remove 1]\<rparr>)
   \<and> remove guardedRepo 1 (Some [Invoke]) postTable =
       (Some (UserError ''locked''),
        \<lparr>table = table postTable, trace = [TxBegin, BeforeDelete 1, TxRollback]\<rparr>)"
  by code_simp

text \<open>
  Without a transaction handler \<open>remove\<close> never runs a hook, whatever the hooks are. Inside a
  transaction whose handler invokes the callback once, and with hooks that do not throw, the
  hooks run before and after the removal.
\<close>

lemma remove_direct_runs_no_hook:
  "remove repo i None s =
     (None, \<lparr>table = dbRemove (primaryKey repo) i (table s), trace = trace s @ [Remove i]\<rparr>)"
  by (simp add: remove_def log_def Let_def)


lemma remove_in_transaction_runs_hooks:
  assumes "beforeDelete repo i (table s) = None"
      and "afterDelete repo i (dbRemove (primaryKey repo) i (table s)) = None"
  shows "remove repo i (Some [Invoke]) s =
           (None, \<lparr>table = dbRemove (primaryKey repo) i (table s),
                   trace = trace s @ [TxBegin, BeforeDelete i, Remove i, AfterDelete i, TxCommit]\<rparr>)"
  using assms
  by (simp add: remove_def transaction_def removeCallback_def log_def Let_def)

section \<open>Properties of findOne, findMany and search\<close>

lemma mapEntityToModel_set:
  "modelClass repo = Some cls \<Longrightarrow>
   mapEntityToModel repo rows = Inr (map (\<lambda>row. anyToModel row cls) rows)"
  by (induction rows) (simp_all add: entityToModel_def)

lemma mapEntityToModel_unset:
  "modelClass repo = None \<Longrightarrow> rows \<noteq> [] \<Longrightarrow>
   mapEntityToModel repo rows = Inl (Misconfigured (className repo))"
  by (cases rows) (simp_all add: entityToModel_def)

text \<open>
  C9. With \<open>modelClass\<close> unset, \<open>findOne\<close>, \<open>findMany\<close> and \<open>search\<close> throw \<open>Misconfigured\<close> with
  the name of the repository class when they map a result: when a row matches, respectively
  when the helper returns an item. With \<open>modelClass\<close> set they return the rows mapped through
  \<open>anyToModel\<close> into instances of the model class. \<open>findOne\<close> returns \<open>null\<close> when no row
  matches (there is then nothing to map, whether \<open>modelClass\<close> is set or not).
\<close>

theorem mapping_requires_modelClass:
  "(modelClass repo = None \<longrightarrow>
      (find (evalCondition (condition (createQueryBuilder cq))) (table s) \<noteq> None \<longrightarrow>
         fst (findOne repo cq s) = Inl (Misconfigured (className repo)))
    \<and> (filter (evalCondition (condition (createQueryBuilder cq))) (table s) \<noteq> [] \<longrightarrow>
         fst (findMany repo cq s) = Inl (Misconfigured (className repo)))
    \<and> (\<forall>items n. searchHelper repo (table s) dto q = Inr (items, n) \<longrightarrow> items \<noteq> [] \<longrightarrow>
         fst (search repo dto q s) = Inl (Misconfigured (className repo))))
   \<and> (\<forall>cls. modelClass repo = Some cls \<longrightarrow>
        fst (findOne repo cq s) =
          Inr (map_option (\<lambda>row. anyToModel row cls)
                 (find (evalCondition (condition (createQueryBuilder cq))) (table s)))
      \<and> fst (findMany repo cq s) =
          Inr (map (\<lambda>row. anyToModel row cls)
                 (filter (evalCondition (condition (createQueryBuilder cq))) (table s)))
      \<and> (\<forall>items n. searchHelper repo (table s) dto q = Inr (items, n) \<longrightarrow>
            fst (search repo dto q s) = Inr (map (\<lambda>row. anyToModel row cls) items, n)))
   \<and> (find (evalCondition (condition (createQueryBuilder cq))) (table s) = None \<longrightarrow>
        fst (findOne repo cq s) = Inr None)"
proof -
  let ?P = "evalCondition (condition (createQueryBuilder cq))"
  have one_unset: "fst (findOne repo cq s) = Inl (Misconfigured (className repo))"
    if "modelClass repo = None" "find ?P (table s) \<noteq> None"
    using that by (auto simp: findOne_def entityToModel_def log_def Let_def)
  have many_unset: "fst (findMany repo cq s) = Inl (Misconfigured (className repo))"
    if "modelClass repo = None" "filter ?P (table s) \<noteq> []"
    using that by (simp add: findMany_def log_def Let_def mapEntityToModel_unset)
  have search_unset: "fst (search repo dto q s) = Inl (Misconfigured (className repo))"
    if "modelClass repo = None" "searchHelper repo (table s) dto q = Inr (items, n)" "items \<noteq> []"
    for items n
    using that by (simp add: search_def log_def Let_def mapEntityToModel_unset)
  have one_set: "fst (findOne repo cq s) = Inr (map_option (\<lambda>row. anyToModel row cls) (find ?P (table s)))"
    if "modelClass repo = Some cls" for cls
    using that by (cases "find ?P (table s)") (simp_all add: findOne_def entityToModel_def log_def Let_def)
  have many_set: "fst (findMany repo cq s) = Inr (map (\<lambda>row. anyToModel row cls) (filter ?P (table s)))"
    if "modelClass repo = Some cls" for cls
    using that by (simp add: findMany_def log_def Let_def mapEntityToModel_set)
  have search_set: "fst (search repo dto q s) = Inr (map (\<lambda>row. anyToModel row cls) items, n)"
    if "modelClass repo = Some cls" "searchHelper repo (table s) dto q = Inr (items, n)"
    for cls items n
    using that by (simp add: search_def log_def Let_def mapEntityToModel_set)
  have one_none: "fst (findOne repo cq s) = Inr None" if "find ?P (table s) = None"
    using that by (simp add: findOne_def log_def Let_def)
  from one_unset many_unset search_unset one_set many_set search_set one_none
  show ?thesis by blast
qed

theorem mapping_requires_modelClass_witness:
  "fst (findOne unsetRepo (Cond (Equals [(''id'', JNum 1)])) postTable)
     = Inl (Misconfigured ''PostRepository'')
   \<and> fst (findMany unsetRepo (Cond (Equals [(''id'', JNum 1)])) postTable)
     = Inl (Misconfigured ''PostRepository'')
   \<and> fst (search unsetRepo [] \<lparr>condition = Equals [(''id'', JNum 1)], relations = []\<rparr> postTable)
     = Inl (Misconfigured ''PostRepository'')
   \<and> fst (findOne unsetRepo (Cond (Equals [(''id'', JNum 2)])) postTable) = Inr None
   \<and> fst (findOne postRepo (Cond (Equals [(''id'', JNum 1)])) postTable)
     = Inr (Some \<lparr>ctor = [''Post''],
                   props = [(''id'', JNum 1), (''title'', JStr ''old''), (''author'', JNum 5)]\<rparr>)
   \<and> fst (findMany postRepo (Cond (Equals [(''id'', JNum 1)])) postTable)
     = Inr [\<lparr>ctor = [''Post''],
              props = [(''id'', JNum 1), (''title'', JStr ''old''), (''author'', JNum 5)]\<rparr>]"
proof -
  let ?row = "[(''id'', JNum 1), (''title'', JStr ''old''), (''author'', JNum 5)]"
  let ?q = "\<lparr>condition = Equals [(''id'', JNum 1)], relations = []\<rparr>"
  have unset: "modelClass unsetRepo = None" by (simp add: unsetRepo_def)
  have name: "className unsetRepo = ''PostRepository''" by (simp add: unsetRepo_def postRepo_def)
  have cls: "modelClass postRepo = Some [''Post'']" by (simp add: postRepo_def)
  have f1: "find (evalCondition (condition (createQueryBuilder (Cond (Equals [(''id'', JNum 1)])))))
              (table postTable) = Some ?row"
    by code_simp
  have f2: "find (evalCondition (condition (createQueryBuilder (Cond (Equals [(''id'', JNum 2)])))))
              (table postTable) = None"
    by code_simp
  have m1: "filter (evalCondition (condition (createQueryBuilder (Cond (Equals [(''id'', JNum 1)])))))
              (table postTable) = [?row]"
    by code_simp
  have sh: "searchHelper unsetRepo (table postTable) [] ?q = Inr ([?row], 1)"
    by code_simp
  have a2m: "anyToModel ?row [''Post''] = \<lparr>ctor = [''Post''], props = ?row\<rparr>"
    by code_simp
  note u1 = mapping_requires_modelClass [of unsetRepo "Cond (Equals [(''id'', JNum 1)])" postTable "[]" ?q]
  note u2 = mapping_requires_modelClass [of unsetRepo "Cond (Equals [(''id'', JNum 2)])" postTable "[]" ?q]
  note p1 = mapping_requires_modelClass [of postRepo "Cond (Equals [(''id'', JNum 1)])" postTable "[]" ?q]
  have a: "fst (findOne unsetRepo (Cond (Equals [(''id'', JNum 1)])) postTable)
     = Inl (Misconfigured ''PostRepository'')"
    using u1 unset f1 name by simp
  have b: "fst (findMany unsetRepo (Cond (Equals [(''id'', JNum 1)])) postTable)
     = Inl (Misconfigured ''PostRepository'')"
    using u1 unset m1 name by simp
  have c: "fst (search unsetRepo [] ?q postTable) = Inl (Misconfigured ''PostRepository'')"
    using u1 unset sh name by simp
  have d: "fst (findOne unsetRepo (Cond (Equals [(''id'', JNum 2)])) postTable) = Inr None"
    using u2 f2 by simp
  have e: "fst (findOne postRepo (Cond (Equals [(''id'', JNum 1)])) postTable)
     = Inr (Some \<lparr>ctor = [''Post''], props = ?row\<rparr>)"
    using p1 cls f1 a2m by simp
  have f: "fst (findMany postRepo (Cond (Equals [(''id'', JNum 1)])) postTable)
     = Inr [\<lparr>ctor = [''Post''], props = ?row\<rparr>]"
    using p1 cls m1 a2m by simp
  from a b c d e f show ?thesis by blast
qed

end
